theory Spec2Isabelle
  imports Main "HOL-Library.Word"
begin

section \<open>The socket endpoint of club::transport (socket.h)\<close>

text \<open>
  A shallow embedding of \<open>SocketImpl\<close>. The endpoint is a record that every member
  function takes and returns. What the endpoint does to the outside (user callbacks it
  invokes, UDP operations it issues) is appended to the field \<open>trace\<close>, oldest first.

  The header uses classes of the repository that it only includes: \<open>AckSet\<close>,
  \<open>binary::encoder\<close> and \<open>binary::decoder\<close>, \<open>OutMessage\<close>, \<open>InMessagePart\<close>,
  \<open>PendingMessage\<close>, \<open>TransmitQueue\<close> and \<open>async::alarm\<close>. \<open>AckSet\<close> and the decoder
  are parameters of the model (the record \<open>externals\<close>): every theorem holds for each
  implementation of them. The others are modelled from the specification, each under a
  comment that says so.
\<close>

subsection \<open>Basic types\<close>

type_synonym byte = "8 word"
type_synonym SequenceNumber = "32 word"

datatype SendState = SendState_sending | SendState_waiting | SendState_pending

text \<open>\<open>MessageType_other\<close> is a decoded type tag outside the enumeration (the
  \<open>default:\<close> branch of \<open>handle_message\<close>).\<close>

datatype MessageType =
    MessageType_sync
  | MessageType_keep_alive
  | MessageType_unreliable
  | MessageType_reliable
  | MessageType_close
  | MessageType_other byte

text \<open>The error codes the endpoint handles; \<open>io_error\<close> is any other code of the
  operating system. A value of type \<open>error_code option\<close> is a
  \<open>boost::system::error_code\<close>: \<open>None\<close> is success.\<close>

datatype error_code =
    operation_aborted
  | connection_reset
  | parse_error
  | timed_out
  | io_error nat

datatype address = address_v4 "32 word" | address_v6 "128 word"

record endpoint =
  ep_address :: address
  ep_port :: "16 word"

fun is_unspecified :: "address \<Rightarrow> bool" where
  "is_unspecified (address_v4 w) = (w = 0)"
| "is_unspecified (address_v6 w) = (w = 0)"

fun is_loopback :: "address \<Rightarrow> bool" where
  "is_loopback (address_v4 w) = (drop_bit 24 w = 127)"
| "is_loopback (address_v6 w) = (w = 1)"

definition packet_size :: nat where
  "packet_size = 1452"

text \<open>\<open>keepalive_period()\<close> and \<open>recv_timeout_duration()\<close>, in milliseconds.\<close>

definition keepalive_period :: nat where
  "keepalive_period = 200"

definition recv_timeout_duration :: nat where
  "recv_timeout_duration = keepalive_period * 5"

subsection \<open>binary::encoder\<close>

text \<open>
  Modelled from the spec: \<open>binary::encoder\<close> (its header is not among the sources).
  An encoder writes into a buffer of \<open>enc_capacity\<close> bytes; \<open>enc_written\<close> are the
  bytes written so far. A \<open>put\<close> that does not fit, or that follows an error, writes
  nothing and sets the error flag.
\<close>

record encoder =
  enc_written :: "byte list"
  enc_capacity :: nat
  enc_error :: bool

definition encoder_over :: "nat \<Rightarrow> encoder" where
  "encoder_over n = \<lparr>enc_written = [], enc_capacity = n, enc_error = False\<rparr>"

definition written :: "encoder \<Rightarrow> nat" where
  "written e = length (enc_written e)"

definition remaining_size :: "encoder \<Rightarrow> nat" where
  "remaining_size e = enc_capacity e - written e"

definition put :: "byte list \<Rightarrow> encoder \<Rightarrow> encoder" where
  "put bs e =
     (if enc_error e \<or> remaining_size e < length bs then e\<lparr>enc_error := True\<rparr>
      else e\<lparr>enc_written := enc_written e @ bs\<rparr>)"

text \<open>Fixed-width integers on the wire, most significant byte first (the byte order
  is the codec's; no property below depends on it).\<close>

definition uint16_bytes :: "nat \<Rightarrow> byte list" where
  "uint16_bytes n = [of_nat (n div 256), of_nat n]"

definition uint32_bytes :: "SequenceNumber \<Rightarrow> byte list" where
  "uint32_bytes w = [ucast (drop_bit 24 w), ucast (drop_bit 16 w), ucast (drop_bit 8 w), ucast w]"

text \<open>\<open>count_encoder.put<uint16_t>(count)\<close>: \<open>count_encoder\<close> is a copy of the encoder
  taken when \<open>pos\<close> bytes were written and \<open>err\<close> was its error flag; it shares the
  buffer, so its \<open>put\<close> overwrites the two bytes at \<open>pos\<close>.\<close>

definition put_uint16_at :: "nat \<Rightarrow> bool \<Rightarrow> nat \<Rightarrow> encoder \<Rightarrow> encoder" where
  "put_uint16_at pos err n e =
     (if err \<or> enc_capacity e - pos < 2 then e
      else e\<lparr>enc_written := (enc_written e)[pos := of_nat (n div 256), Suc pos := of_nat n]\<rparr>)"

subsection \<open>OutMessage\<close>

text \<open>
  Modelled from the spec: \<open>OutMessage\<close> (out_message.h is not among the sources), with
  the fields the spec lists. \<open>header_size\<close> is the size of the spec's message part
  header: type (1), reliability flag (1), sequence number (4), total size (2), chunk
  start (2), chunk length (2).
\<close>

record OutMessage =
  resend_until_acked :: bool
  out_type :: MessageType
  out_sequence_number :: SequenceNumber
  out_payload :: "byte list"
  bytes_already_sent :: nat

definition payload_size :: "OutMessage \<Rightarrow> nat" where
  "payload_size m = length (out_payload m)"

definition header_size :: nat where
  "header_size = 12"

fun type_tag :: "MessageType \<Rightarrow> byte" where
  "type_tag MessageType_sync = 0"
| "type_tag MessageType_reliable = 1"
| "type_tag MessageType_unreliable = 2"
| "type_tag MessageType_keep_alive = 3"
| "type_tag MessageType_close = 4"
| "type_tag (MessageType_other b) = b"

definition encode_header :: "OutMessage \<Rightarrow> nat \<Rightarrow> nat \<Rightarrow> byte list" where
  "encode_header m start len =
     [type_tag (out_type m), (if resend_until_acked m then 1 else 0)]
     @ uint32_bytes (out_sequence_number m)
     @ uint16_bytes (payload_size m) @ uint16_bytes start @ uint16_bytes len"

text \<open>Modelled from the spec: \<open>OutMessage::encode_header_and_payload(encoder, offset)\<close>
  writes the header and as many payload bytes from \<open>offset\<close> as fit in the encoder's
  remaining space, and returns the number of payload bytes written.\<close>

definition encode_header_and_payload :: "encoder \<Rightarrow> OutMessage \<Rightarrow> nat \<Rightarrow> nat \<times> encoder" where
  "encode_header_and_payload e m offset =
     (let n = min (payload_size m - offset) (remaining_size e - header_size);
          e1 = put (encode_header m offset n) e;
          e2 = put (take n (drop offset (out_payload m))) e1
      in (if enc_error e2 then 0 else n, e2))"

subsection \<open>SocketImpl::encode and SocketImpl::try_encode\<close>

text \<open>\<open>encode\<close> returns the encoder and the message, whose fragmentation cursor it
  moves. Its \<open>assert(0)\<close> on an encoder error is the early return without moving the
  cursor.\<close>

definition encode :: "encoder \<Rightarrow> OutMessage \<Rightarrow> encoder \<times> OutMessage" where
  "encode e message =
     (let m = (if bytes_already_sent message = payload_size message
               then message\<lparr>bytes_already_sent := 0\<rparr> else message);
          r = encode_header_and_payload e m (bytes_already_sent m)
      in if enc_error (snd r) then (snd r, m)
         else (snd r, m\<lparr>bytes_already_sent := bytes_already_sent m + fst r\<rparr>))"

definition try_encode :: "encoder \<Rightarrow> OutMessage \<Rightarrow> bool \<times> encoder \<times> OutMessage" where
  "try_encode e message =
     (let minimal_encoded_size = header_size + min 1 (payload_size message)
      in if remaining_size e < minimal_encoded_size then (False, e, message)
         else (True, encode e message))"

subsection \<open>Incoming messages\<close>

text \<open>
  Modelled from the spec: \<open>InMessagePart\<close>, \<open>InMessageFull\<close> and \<open>PendingMessage\<close> (their
  headers are not among the sources). \<open>get_complete_message\<close> of a part returns a message
  only when the chunk starts at 0 and its length is the total size. A pending message
  has a payload buffer of the total size and a coverage: here one flag per byte offset,
  set when the byte has been written. \<open>update_payload\<close> copies the chunk into the buffer
  at \<open>chunk_start\<close> and adds its range to the coverage; bytes that would fall behind the
  end of the buffer are not copied. The pending message is complete when the coverage is
  the whole of \<open>[0, total)\<close>.
\<close>

record InMessagePart =
  part_type :: MessageType
  part_sequence_number :: SequenceNumber
  part_original_size :: nat
  part_chunk_start :: nat
  part_payload :: "byte list"

record InMessageFull =
  full_type :: MessageType
  full_sequence_number :: SequenceNumber
  full_payload :: "byte list"

definition part_is_complete :: "InMessagePart \<Rightarrow> bool" where
  "part_is_complete p =
     (part_chunk_start p = 0 \<and> length (part_payload p) = part_original_size p)"

definition part_get_complete_message :: "InMessagePart \<Rightarrow> InMessageFull option" where
  "part_get_complete_message p =
     (if part_is_complete p
      then Some \<lparr>full_type = part_type p, full_sequence_number = part_sequence_number p,
                 full_payload = part_payload p\<rparr>
      else None)"

record PendingMessage =
  pm_type :: MessageType
  pm_sequence_number :: SequenceNumber
  pm_size :: nat
  pm_payload :: "byte list"
  pm_coverage :: "bool list"

definition copy_into :: "nat \<Rightarrow> 'b list \<Rightarrow> 'b list \<Rightarrow> 'b list" where
  "copy_into start xs buf = take (length buf) (take start buf @ xs @ drop (start + length xs) buf)"

definition update_payload :: "nat \<Rightarrow> byte list \<Rightarrow> PendingMessage \<Rightarrow> PendingMessage" where
  "update_payload start bs pm =
     pm\<lparr>pm_payload := copy_into start bs (pm_payload pm),
        pm_coverage := copy_into start (replicate (length bs) True) (pm_coverage pm)\<rparr>"

definition PendingMessage_of :: "InMessagePart \<Rightarrow> PendingMessage" where
  "PendingMessage_of p =
     update_payload (part_chunk_start p) (part_payload p)
       \<lparr>pm_type = part_type p, pm_sequence_number = part_sequence_number p,
        pm_size = part_original_size p,
        pm_payload = replicate (part_original_size p) 0,
        pm_coverage = replicate (part_original_size p) False\<rparr>"

definition pm_is_complete :: "PendingMessage \<Rightarrow> bool" where
  "pm_is_complete pm = list_all id (pm_coverage pm)"

definition pm_get_complete_message :: "PendingMessage \<Rightarrow> InMessageFull option" where
  "pm_get_complete_message pm =
     (if pm_is_complete pm
      then Some \<lparr>full_type = pm_type pm, full_sequence_number = pm_sequence_number pm,
                 full_payload = pm_payload pm\<rparr>
      else None)"

text \<open>\<open>std::map<SequenceNumber, PendingMessage>\<close>: an association list kept in
  increasing key order (unsigned comparison), as the map iterates.\<close>

type_synonym PendingMessages = "(SequenceNumber \<times> PendingMessage) list"

fun map_emplace :: "SequenceNumber \<Rightarrow> PendingMessage \<Rightarrow> PendingMessages \<Rightarrow> PendingMessages" where
  "map_emplace k v [] = [(k, v)]"
| "map_emplace k v ((k', v') # xs) =
     (if k < k' then (k, v) # (k', v') # xs
      else if k = k' then (k', v') # xs
      else (k', v') # map_emplace k v xs)"

definition map_modify :: "SequenceNumber \<Rightarrow> (PendingMessage \<Rightarrow> PendingMessage) \<Rightarrow> PendingMessages \<Rightarrow> PendingMessages" where
  "map_modify k f xs = map (\<lambda>kv. if fst kv = k then (fst kv, f (snd kv)) else kv) xs"

definition map_erase :: "SequenceNumber \<Rightarrow> PendingMessages \<Rightarrow> PendingMessages" where
  "map_erase k xs = filter (\<lambda>kv. fst kv \<noteq> k) xs"

subsection \<open>User callbacks and the trace\<close>

text \<open>
  An \<open>OnReceive\<close> or \<open>OnFlush\<close> callback is user code. It is modelled by what it does
  to the endpoint while it runs, which may depend on its arguments: a list of calls of
  the endpoint's public operations \<open>receive_reliable\<close>, \<open>receive_unreliable\<close>, \<open>flush\<close> and
  \<open>close\<close>, and the destruction of the endpoint. A callback that calls \<open>send_reliable\<close> or
  \<open>send_unreliable\<close> from inside is outside the model.
\<close>

datatype action =
    Call_receive_reliable OnReceive
  | Call_receive_unreliable OnReceive
  | Call_flush OnFlush
  | Call_close
  | Destroy
and OnReceive = OnReceive "error_code option \<Rightarrow> byte list \<Rightarrow> action list"
and OnFlush = OnFlush "action list"

fun OnReceive_body :: "OnReceive \<Rightarrow> error_code option \<Rightarrow> byte list \<Rightarrow> action list" where
  "OnReceive_body (OnReceive f) = f"

fun OnFlush_body :: "OnFlush \<Rightarrow> action list" where
  "OnFlush_body (OnFlush as) = as"

text \<open>
  The events of the trace. \<open>Reliable_msg m\<close> is the call
  \<open>f(error_code(), msg.payload)\<close> of the reliable callback for the complete message
  \<open>m\<close>; \<open>Unreliable_msg sn payload\<close> is the call \<open>r(error_code(), payload)\<close> of the
  unreliable callback for the message with sequence number \<open>sn\<close>; \<open>Reliable_err e\<close> and
  \<open>Unreliable_err e\<close> are the calls with the error \<open>e\<close> and an empty buffer.
\<close>

datatype event =
    Reliable_msg InMessageFull
  | Unreliable_msg SequenceNumber "byte list"
  | Reliable_err error_code
  | Unreliable_err error_code
  | Flushed
  | Send_to "byte list" endpoint
  | Async_send_to "byte list" endpoint
  | Async_receive_from
  | Assert_failed

subsection \<open>The parameters: AckSet and binary::decoder\<close>

text \<open>
  \<open>AckSet\<close> (type \<open>'a\<close>) with \<open>can_add\<close>, \<open>try_add\<close> (its result, the set after the call),
  \<open>is_in\<close> and its encoding, and the three \<open>decoder.get<T>()\<close> the endpoint uses. A
  \<open>get\<close> takes the bytes not yet read and returns the value and the rest, or \<open>None\<close>
  when the decoder reports an error.
\<close>

record 'a externals =
  can_add :: "'a \<Rightarrow> SequenceNumber \<Rightarrow> bool"
  try_add :: "'a \<Rightarrow> SequenceNumber \<Rightarrow> 'a"
  is_in :: "'a \<Rightarrow> SequenceNumber \<Rightarrow> bool"
  encode_AckSet :: "'a \<Rightarrow> byte list"
  get_AckSet :: "byte list \<Rightarrow> ('a \<times> byte list) option"
  get_uint16 :: "byte list \<Rightarrow> (nat \<times> byte list) option"
  get_InMessagePart :: "byte list \<Rightarrow> (InMessagePart \<times> byte list) option"

subsection \<open>The endpoint\<close>

record Sync =
  last_used_reliable_sn :: SequenceNumber
  last_used_unreliable_sn :: SequenceNumber

text \<open>
  The members of \<open>SocketImpl\<close> and of its \<open>SocketState\<close>. \<open>socket_is_open\<close> is
  \<open>_socket.is_open()\<close>. \<open>timer\<close> is the pacer: \<open>Some d\<close> while a wait of \<open>d\<close>
  microseconds is outstanding. An alarm is \<open>Some d\<close> while it is started with duration
  \<open>d\<close> (Modelled from the spec: \<open>async::alarm\<close>, with \<open>start\<close> and \<open>stop\<close>). The transmit
  queue is the list of its messages, the head of the next cycle first (Modelled from the
  spec: \<open>TransmitQueue\<close>). \<open>tx_buffer\<close> is not a field: its bytes are the encoder's.
\<close>

record 'a SocketImpl =
  send_state :: SendState
  socket_is_open :: bool
  remote_endpoint :: endpoint
  transmit_queue :: "OutMessage list"
  timer :: "nat option"
  was_destroyed :: bool
  rx_endpoint :: endpoint
  rx_buffer :: "byte list"
  sync :: "Sync option"
  pending_reliable_messages :: PendingMessages
  pending_unreliable_message :: "PendingMessage option"
  schedule_sending_acks :: bool
  received_message_ids_by_peer :: 'a
  received_message_ids :: 'a
  next_reliable_sn :: SequenceNumber
  next_unreliable_sn :: SequenceNumber
  on_receive_reliable :: "OnReceive option"
  on_receive_unreliable :: "OnReceive option"
  on_flush :: "OnFlush option"
  recv_timeout_alarm :: "nat option"
  send_keepalive_alarm :: "nat option"
  trace :: "event list"

definition emit :: "event \<Rightarrow> 'a SocketImpl \<Rightarrow> 'a SocketImpl" where
  "emit ev s = s\<lparr>trace := trace s @ [ev]\<rparr>"

subsection \<open>close and the public registration operations\<close>

text \<open>\<open>construct_packet_with_one_message\<close>: the flag is False when one of its
  assertions fails (\<open>try_encode\<close> refuses, or the encoder reports an error); the bytes
  are the vector it returns, resized to \<open>encoder.written()\<close>.\<close>

definition construct_packet_with_one_message ::
    "'a externals \<Rightarrow> OutMessage \<Rightarrow> 'a SocketImpl \<Rightarrow> bool \<times> byte list" where
  "construct_packet_with_one_message ops m s =
     (let e0 = encoder_over packet_size;
          e1 = put (encode_AckSet ops (received_message_ids s)) e0;
          e2 = put (uint16_bytes 1) e1;
          r = try_encode e2 m;
          e3 = fst (snd r)
      in (fst r \<and> \<not> enc_error e3, enc_written e3))"

definition sync_send_close_message :: "'a externals \<Rightarrow> 'a SocketImpl \<Rightarrow> 'a SocketImpl" where
  "sync_send_close_message ops s =
     (let m = \<lparr>resend_until_acked = False, out_type = MessageType_close,
               out_sequence_number = 0, out_payload = [], bytes_already_sent = 0\<rparr>;
          r = construct_packet_with_one_message ops m s
      in if fst r then emit (Send_to (snd r) (remote_endpoint s)) s
         else emit Assert_failed s)"

definition close :: "'a externals \<Rightarrow> 'a SocketImpl \<Rightarrow> 'a SocketImpl" where
  "close ops s =
     (let s1 = s\<lparr>timer := None\<rparr>;
          s2 = (if socket_is_open s1
                then (sync_send_close_message ops s1)\<lparr>socket_is_open := False\<rparr>
                else s1)
      in s2\<lparr>recv_timeout_alarm := None, send_keepalive_alarm := None\<rparr>)"

definition receive_unreliable :: "OnReceive \<Rightarrow> 'a SocketImpl \<Rightarrow> 'a SocketImpl" where
  "receive_unreliable f s = s\<lparr>on_receive_unreliable := Some f\<rparr>"

definition receive_reliable :: "OnReceive \<Rightarrow> 'a SocketImpl \<Rightarrow> 'a SocketImpl" where
  "receive_reliable f s = s\<lparr>on_receive_reliable := Some f\<rparr>"

definition flush :: "OnFlush \<Rightarrow> 'a SocketImpl \<Rightarrow> 'a SocketImpl" where
  "flush f s = s\<lparr>on_flush := Some f\<rparr>"

text \<open>The destructor sets the flag of the shared \<open>SocketState\<close>.\<close>

definition destroy :: "'a SocketImpl \<Rightarrow> 'a SocketImpl" where
  "destroy s = s\<lparr>was_destroyed := True\<rparr>"

text \<open>Running the body of a callback: its calls in order. A call on a destroyed
  endpoint is not run.\<close>

fun perform :: "'a externals \<Rightarrow> action \<Rightarrow> 'a SocketImpl \<Rightarrow> 'a SocketImpl" where
  "perform ops (Call_receive_reliable f) s = receive_reliable f s"
| "perform ops (Call_receive_unreliable f) s = receive_unreliable f s"
| "perform ops (Call_flush f) s = flush f s"
| "perform ops Call_close s = close ops s"
| "perform ops Destroy s = destroy s"

fun run_actions :: "'a externals \<Rightarrow> action list \<Rightarrow> 'a SocketImpl \<Rightarrow> 'a SocketImpl" where
  "run_actions ops [] s = s"
| "run_actions ops (a # as) s =
     (if was_destroyed s then s else run_actions ops as (perform ops a s))"

subsection \<open>Errors and the receive loop's start\<close>

definition handle_error :: "'a externals \<Rightarrow> error_code \<Rightarrow> 'a SocketImpl \<Rightarrow> 'a SocketImpl" where
  "handle_error ops err s =
     (let s1 = close ops s;
          r1 = on_receive_unreliable s1;
          r2 = on_receive_reliable s1;
          s2 = s1\<lparr>on_receive_unreliable := None, on_receive_reliable := None\<rparr>;
          s3 = (case r1 of None \<Rightarrow> s2
                | Some f \<Rightarrow> run_actions ops (OnReceive_body f (Some err) [])
                              (emit (Unreliable_err err) s2))
      in (case r2 of None \<Rightarrow> s3
          | Some f \<Rightarrow> run_actions ops (OnReceive_body f (Some err) [])
                        (emit (Reliable_err err) s3)))"

definition start_receiving :: "'a SocketImpl \<Rightarrow> 'a SocketImpl" where
  "start_receiving s = emit Async_receive_from (s\<lparr>recv_timeout_alarm := Some recv_timeout_duration\<rparr>)"

subsection \<open>The send loop\<close>

text \<open>
  Modelled from the spec: the cycle of the \<open>TransmitQueue\<close>. A cycle visits the
  messages once, from the head; the caller may erase the current message and go on, or
  stop, and the next cycle resumes after the message the last one stopped at.
  \<open>cycle_loop\<close> is the \<open>for\<close> loop of \<open>encode_payload\<close>: \<open>kept\<close> are the messages
  visited and left in the queue. It returns the count, the encoder, the queue in the
  order of the next cycle, and whether the loop was left by \<open>break\<close>.
\<close>

fun cycle_loop :: "'a externals \<Rightarrow> 'a \<Rightarrow> OutMessage list \<Rightarrow> OutMessage list \<Rightarrow> encoder \<Rightarrow> nat
    \<Rightarrow> nat \<times> encoder \<times> OutMessage list \<times> bool" where
  "cycle_loop ops acks [] kept e count = (count, e, kept, False)"
| "cycle_loop ops acks (mi # rest) kept e count =
     (if resend_until_acked mi \<and> is_in ops acks (out_sequence_number mi)
      then cycle_loop ops acks rest kept e count
      else (let r = try_encode e mi; e' = fst (snd r); m' = snd (snd r)
            in if \<not> fst r then (count, e, rest @ kept @ [mi], True)
               else if bytes_already_sent m' \<noteq> payload_size m'
                    then (count + 1, e', rest @ kept @ [m'], True)
               else if \<not> resend_until_acked m'
                    then cycle_loop ops acks rest kept e' (count + 1)
               else cycle_loop ops acks rest (kept @ [m']) e' (count + 1)))"

definition encode_payload :: "'a externals \<Rightarrow> encoder \<Rightarrow> 'a SocketImpl \<Rightarrow> nat \<times> encoder \<times> 'a SocketImpl" where
  "encode_payload ops e s =
     (let pos = written e; err = enc_error e;
          e1 = put (uint16_bytes 0) e;
          r = cycle_loop ops (received_message_ids_by_peer s) (transmit_queue s) [] e1 0;
          count = fst r; e2 = fst (snd r); q = fst (snd (snd r))
      in (count, put_uint16_at pos err count e2, s\<lparr>transmit_queue := q\<rparr>))"

text \<open>\<open>start_sending\<close>. The encoder is over \<open>tx_buffer\<close>, of \<open>packet_size\<close> bytes. A
  failed assertion ends the function with the event \<open>Assert_failed\<close>.\<close>

definition start_sending :: "'a externals \<Rightarrow> 'a SocketImpl \<Rightarrow> 'a SocketImpl" where
  "start_sending ops s =
     (if \<not> socket_is_open s then s
      else if send_state s \<noteq> SendState_pending then s
      else (let e = put (encode_AckSet ops (received_message_ids s)) (encoder_over packet_size)
            in if enc_error e then emit Assert_failed s
               else (let r = encode_payload ops e s;
                         count = fst r; e' = fst (snd r); s1 = snd (snd r)
                     in if count = 0 \<and> \<not> schedule_sending_acks s1
                        then (case on_flush s1 of
                                None \<Rightarrow> s1\<lparr>send_keepalive_alarm := Some keepalive_period\<rparr>
                              | Some f \<Rightarrow>
                                  (let s2 = run_actions ops (OnFlush_body f)
                                              (emit Flushed (s1\<lparr>on_flush := None\<rparr>))
                                   in if was_destroyed s2 then s2
                                      else if \<not> socket_is_open s2 then s2
                                      else s2\<lparr>send_keepalive_alarm := Some keepalive_period\<rparr>))
                        else (let s2 = s1\<lparr>schedule_sending_acks := False\<rparr>
                              in if written e' = 0 then emit Assert_failed s2
                                 else emit (Async_send_to (enc_written e') (remote_endpoint s2))
                                        (s2\<lparr>send_state := SendState_sending\<rparr>)))))"

definition on_send :: "'a externals \<Rightarrow> error_code option \<Rightarrow> nat \<Rightarrow> 'a SocketImpl \<Rightarrow> 'a SocketImpl" where
  "on_send ops error sz s =
     (if was_destroyed s then s
      else (let s1 = s\<lparr>send_state := SendState_pending\<rparr>
            in case error of
                 Some e \<Rightarrow> (if e = operation_aborted then s1 else emit Assert_failed s1)
               | None \<Rightarrow>
                   s1\<lparr>send_state := SendState_waiting,
                      timer := Some (if is_loopback (ep_address (remote_endpoint s1)) then 0
                                     else 200 * sz)\<rparr>))"

text \<open>The handler of \<open>_timer.async_wait\<close>.\<close>

definition on_timer :: "'a externals \<Rightarrow> error_code option \<Rightarrow> 'a SocketImpl \<Rightarrow> 'a SocketImpl" where
  "on_timer ops error s =
     (if was_destroyed s then s
      else (let s1 = s\<lparr>send_state := SendState_pending, timer := None\<rparr>
            in case error of Some e \<Rightarrow> s1 | None \<Rightarrow> start_sending ops s1))"

text \<open>Modelled from the spec: \<open>TransmitQueue::emplace\<close> puts the new message, with
  the cursor at 0, at the end of the queue.\<close>

definition add_message :: "bool \<Rightarrow> MessageType \<Rightarrow> SequenceNumber \<Rightarrow> byte list \<Rightarrow> 'a SocketImpl \<Rightarrow> 'a SocketImpl" where
  "add_message r t sn data s =
     s\<lparr>transmit_queue := transmit_queue s @
         [\<lparr>resend_until_acked = r, out_type = t, out_sequence_number = sn,
           out_payload = data, bytes_already_sent = 0\<rparr>]\<rparr>"

definition send_unreliable :: "'a externals \<Rightarrow> byte list \<Rightarrow> 'a SocketImpl \<Rightarrow> 'a SocketImpl" where
  "send_unreliable ops data s =
     start_sending ops
       (add_message False MessageType_unreliable (next_unreliable_sn s) data
          (s\<lparr>next_unreliable_sn := next_unreliable_sn s + 1\<rparr>))"

definition send_reliable :: "'a externals \<Rightarrow> byte list \<Rightarrow> 'a SocketImpl \<Rightarrow> 'a SocketImpl" where
  "send_reliable ops data s =
     start_sending ops
       (add_message True MessageType_reliable (next_reliable_sn s) data
          (s\<lparr>next_reliable_sn := next_reliable_sn s + 1\<rparr>))"

definition on_recv_timeout_alarm :: "'a externals \<Rightarrow> 'a SocketImpl \<Rightarrow> 'a SocketImpl" where
  "on_recv_timeout_alarm ops s = handle_error ops timed_out s"

definition on_send_keepalive_alarm :: "'a externals \<Rightarrow> 'a SocketImpl \<Rightarrow> 'a SocketImpl" where
  "on_send_keepalive_alarm ops s =
     start_sending ops (add_message False MessageType_keep_alive 0 [] s)"

subsection \<open>Reliable messages\<close>

text \<open>\<open>user_handle_reliable_msg\<close> returns its \<open>bool\<close> and the endpoint. The callback
  is moved out of \<open>_on_receive_reliable\<close> before it runs. (\<open>_sync\<close> is set whenever the
  function is called.)\<close>

definition user_handle_reliable_msg ::
    "'a externals \<Rightarrow> InMessageFull \<Rightarrow> 'a SocketImpl \<Rightarrow> bool \<times> 'a SocketImpl" where
  "user_handle_reliable_msg ops msg s =
     (case on_receive_reliable s of
        None \<Rightarrow> (False, s)
      | Some f \<Rightarrow>
          (let s1 = run_actions ops (OnReceive_body f None (full_payload msg))
                      (emit (Reliable_msg msg) (s\<lparr>on_receive_reliable := None\<rparr>))
           in if was_destroyed s1 then (False, s1)
              else (True,
                    s1\<lparr>received_message_ids :=
                         try_add ops (received_message_ids s1) (full_sequence_number msg),
                       sync := map_option
                         (\<lambda>sy. sy\<lparr>last_used_reliable_sn := full_sequence_number msg\<rparr>)
                         (sync s1)\<rparr>)))"

text \<open>The \<open>for\<close> loop of \<open>replay_pending_messages\<close> over the entries of the map from
  the iterator on, in key order; \<open>pms.erase(i)\<close> removes the entry from the map of the
  endpoint. A callback cannot reach the map, so the entries still to visit are those
  the loop started with.\<close>

fun replay_loop :: "'a externals \<Rightarrow> PendingMessages \<Rightarrow> 'a SocketImpl \<Rightarrow> 'a SocketImpl" where
  "replay_loop ops [] s = s"
| "replay_loop ops ((k, pm) # rest) s =
     (case sync s of
        None \<Rightarrow> s
      | Some sy \<Rightarrow>
          (if pm_sequence_number pm = last_used_reliable_sn sy + 1
           then (case pm_get_complete_message pm of
                   None \<Rightarrow> s
                 | Some full_message \<Rightarrow>
                     (let r = user_handle_reliable_msg ops full_message s
                      in if \<not> fst r then snd r
                         else replay_loop ops rest
                                ((snd r)\<lparr>pending_reliable_messages :=
                                     map_erase k (pending_reliable_messages (snd r))\<rparr>)))
           else replay_loop ops rest s))"

definition replay_pending_messages :: "'a externals \<Rightarrow> 'a SocketImpl \<Rightarrow> 'a SocketImpl" where
  "replay_pending_messages ops s = replay_loop ops (pending_reliable_messages s) s"

definition handle_reliable_message :: "'a externals \<Rightarrow> InMessagePart \<Rightarrow> 'a SocketImpl \<Rightarrow> 'a SocketImpl" where
  "handle_reliable_message ops msg s0 =
     (let s = s0\<lparr>schedule_sending_acks := True\<rparr>
      in case sync s of
           None \<Rightarrow> s
         | Some sy \<Rightarrow>
             (if \<not> can_add ops (received_message_ids s) (part_sequence_number msg) then s
              else (case (if part_sequence_number msg = last_used_reliable_sn sy + 1
                          then part_get_complete_message msg else None) of
                      Some full_msg \<Rightarrow>
                        (let r = user_handle_reliable_msg ops full_msg s
                         in if \<not> fst r then snd r
                            else replay_pending_messages ops (snd r))
                    | None \<Rightarrow>
                        (case map_of (pending_reliable_messages s) (part_sequence_number msg) of
                           None \<Rightarrow>
                             s\<lparr>pending_reliable_messages :=
                                 map_emplace (part_sequence_number msg) (PendingMessage_of msg)
                                   (pending_reliable_messages s)\<rparr>
                         | Some pm \<Rightarrow>
                             replay_pending_messages ops
                               (s\<lparr>pending_reliable_messages :=
                                   map_modify (part_sequence_number msg)
                                     (update_payload (part_chunk_start msg) (part_payload msg))
                                     (pending_reliable_messages s)\<rparr>)))))"

subsection \<open>Unreliable messages\<close>

text \<open>The block that both deliveries of \<open>handle_unreliable_message\<close> consist of: move
  the callback out, call it, return if the endpoint was destroyed, set the counter,
  empty the slot. (The assertion of \<open>handle_unreliable_message\<close> that the slot and the
  part have the same number follows from the two comparisons before it, so it has no
  branch.)\<close>

definition deliver_unreliable ::
    "'a externals \<Rightarrow> SequenceNumber \<Rightarrow> byte list \<Rightarrow> 'a SocketImpl \<Rightarrow> 'a SocketImpl" where
  "deliver_unreliable ops sn payload s =
     (case on_receive_unreliable s of
        None \<Rightarrow> s
      | Some r \<Rightarrow>
          (let s1 = run_actions ops (OnReceive_body r None payload)
                      (emit (Unreliable_msg sn payload) (s\<lparr>on_receive_unreliable := None\<rparr>))
           in if was_destroyed s1 then s1
              else s1\<lparr>sync := map_option (\<lambda>sy. sy\<lparr>last_used_unreliable_sn := sn\<rparr>) (sync s1),
                      pending_unreliable_message := None\<rparr>))"

definition handle_unreliable_message :: "'a externals \<Rightarrow> InMessagePart \<Rightarrow> 'a SocketImpl \<Rightarrow> 'a SocketImpl" where
  "handle_unreliable_message ops msg s =
     (if on_receive_unreliable s = None then s
      else case sync s of
             None \<Rightarrow> s
           | Some sy \<Rightarrow>
               (if part_sequence_number msg \<le> last_used_unreliable_sn sy then s
                else if part_is_complete msg
                     then deliver_unreliable ops (part_sequence_number msg) (part_payload msg) s
                else (case pending_unreliable_message s of
                        None \<Rightarrow> s\<lparr>pending_unreliable_message := Some (PendingMessage_of msg)\<rparr>
                      | Some opm \<Rightarrow>
                          (if pm_sequence_number opm < part_sequence_number msg
                           then s\<lparr>pending_unreliable_message := Some (PendingMessage_of msg)\<rparr>
                           else if part_sequence_number msg < pm_sequence_number opm then s
                           else (let pm = update_payload (part_chunk_start msg) (part_payload msg) opm;
                                     s1 = s\<lparr>pending_unreliable_message := Some pm\<rparr>
                                 in if pm_is_complete pm
                                    then deliver_unreliable ops (part_sequence_number msg) (pm_payload pm) s1
                                    else s1)))))"

subsection \<open>Dispatch and the receive completion\<close>

definition handle_acks :: "'a \<Rightarrow> 'a SocketImpl \<Rightarrow> 'a SocketImpl" where
  "handle_acks acks s = s\<lparr>received_message_ids_by_peer := acks\<rparr>"

definition handle_close_message :: "'a externals \<Rightarrow> 'a SocketImpl \<Rightarrow> 'a SocketImpl" where
  "handle_close_message ops s = handle_error ops connection_reset (s\<lparr>socket_is_open := False\<rparr>)"

definition handle_sync_message :: "'a externals \<Rightarrow> InMessagePart \<Rightarrow> 'a SocketImpl \<Rightarrow> 'a SocketImpl" where
  "handle_sync_message ops msg s0 =
     (let s = s0\<lparr>schedule_sending_acks := True\<rparr>
      in case sync s of
           Some sy \<Rightarrow> s
         | None \<Rightarrow>
             s\<lparr>received_message_ids :=
                 try_add ops (received_message_ids s) (part_sequence_number msg),
               sync := Some \<lparr>last_used_reliable_sn = part_sequence_number msg,
                             last_used_unreliable_sn = part_sequence_number msg\<rparr>\<rparr>)"

definition handle_message :: "'a externals \<Rightarrow> InMessagePart \<Rightarrow> 'a SocketImpl \<Rightarrow> 'a SocketImpl" where
  "handle_message ops msg s =
     (case part_type msg of
        MessageType_other b \<Rightarrow> handle_error ops parse_error s
      | t \<Rightarrow>
          (let s1 = (case t of
                       MessageType_sync \<Rightarrow> handle_sync_message ops msg s
                     | MessageType_keep_alive \<Rightarrow> s
                     | MessageType_unreliable \<Rightarrow> handle_unreliable_message ops msg s
                     | MessageType_reliable \<Rightarrow> handle_reliable_message ops msg s
                     | MessageType_close \<Rightarrow> handle_close_message ops s
                     | MessageType_other b \<Rightarrow> s)
           in if \<not> was_destroyed s1 then start_sending ops s1 else s1))"

text \<open>The \<open>for\<close> loop of \<open>on_receive\<close> over the \<open>message_count\<close> parts still to decode
  from \<open>bs\<close>, and the \<open>start_receiving\<close> after it.\<close>

fun receive_loop :: "'a externals \<Rightarrow> nat \<Rightarrow> byte list \<Rightarrow> 'a SocketImpl \<Rightarrow> 'a SocketImpl" where
  "receive_loop ops 0 bs s = start_receiving s"
| "receive_loop ops (Suc n) bs s =
     (case get_InMessagePart ops bs of
        None \<Rightarrow> handle_error ops parse_error s
      | Some (m, bs') \<Rightarrow>
          (let s1 = handle_message ops m s
           in if was_destroyed s1 then s1
              else if \<not> socket_is_open s1 then s1
              else receive_loop ops n bs' s1))"

text \<open>The part of \<open>on_receive\<close> after the check of the source: the ack set, the
  message count and the messages are decoded from \<open>rx_buffer\<close> and handled.\<close>

definition decode_and_handle :: "'a externals \<Rightarrow> 'a SocketImpl \<Rightarrow> 'a SocketImpl" where
  "decode_and_handle ops s =
     (case get_AckSet ops (rx_buffer s) of
        None \<Rightarrow> handle_error ops parse_error s
      | Some (ack_set, bs) \<Rightarrow>
          (let s1 = handle_acks ack_set s
           in case get_uint16 ops bs of
                None \<Rightarrow> emit Assert_failed s1
              | Some (message_count, bs') \<Rightarrow> receive_loop ops message_count bs' s1))"

text \<open>\<open>on_receive(error, size, state)\<close>: the datagram is in \<open>rx_buffer\<close>, its source in
  \<open>rx_endpoint\<close>.\<close>

definition on_receive :: "'a externals \<Rightarrow> error_code option \<Rightarrow> nat \<Rightarrow> 'a SocketImpl \<Rightarrow> 'a SocketImpl" where
  "on_receive ops error sz s0 =
     (if was_destroyed s0 then s0
      else (let s = s0\<lparr>recv_timeout_alarm := None\<rparr>
            in case error of
                 Some e \<Rightarrow>
                   (let r1 = on_receive_unreliable s;
                        r2 = on_receive_reliable s;
                        s2 = s\<lparr>on_receive_unreliable := None, on_receive_reliable := None\<rparr>;
                        s3 = (case r1 of None \<Rightarrow> s2
                              | Some f \<Rightarrow> run_actions ops (OnReceive_body f (Some e) [])
                                            (emit (Unreliable_err e) s2))
                    in (case r2 of None \<Rightarrow> s3
                        | Some f \<Rightarrow> run_actions ops (OnReceive_body f (Some e) [])
                                      (emit (Reliable_err e) s3)))
               | None \<Rightarrow>
                   (if \<not> is_unspecified (ep_address (remote_endpoint s))
                       \<and> rx_endpoint s \<noteq> remote_endpoint s
                    then start_receiving s
                    else decode_and_handle ops s)))"

subsection \<open>The endpoint as constructed\<close>

text \<open>\<open>SocketImpl(io_service&)\<close> with the member initialisers of the class;
  \<open>acks\<close> is the default-constructed \<open>AckSet\<close>. The socket is bound and open, the
  remote endpoint is the default \<open>udp::endpoint\<close> (the unspecified IPv4 address).\<close>

definition SocketImpl_new :: "'a \<Rightarrow> 'a SocketImpl" where
  "SocketImpl_new acks =
     \<lparr>send_state = SendState_pending, socket_is_open = True,
      remote_endpoint = \<lparr>ep_address = address_v4 0, ep_port = 0\<rparr>,
      transmit_queue = [], timer = None, was_destroyed = False,
      rx_endpoint = \<lparr>ep_address = address_v4 0, ep_port = 0\<rparr>,
      rx_buffer = replicate packet_size 0,
      sync = None, pending_reliable_messages = [], pending_unreliable_message = None,
      schedule_sending_acks = False,
      received_message_ids_by_peer = acks, received_message_ids = acks,
      next_reliable_sn = 0, next_unreliable_sn = 1,
      on_receive_reliable = None, on_receive_unreliable = None, on_flush = None,
      recv_timeout_alarm = None, send_keepalive_alarm = None, trace = []\<rparr>"

subsection \<open>Vocabulary of the properties\<close>

text \<open>The messages handed to the reliable callback, oldest first, and their sequence
  numbers.\<close>

fun delivered :: "event list \<Rightarrow> InMessageFull list" where
  "delivered [] = []"
| "delivered (Reliable_msg m # evs) = m # delivered evs"
| "delivered (ev # evs) = delivered evs"



text \<open>\<open>_sync->last_used_reliable_sn\<close>, when \<open>_sync\<close> is set.\<close>

definition reliable_last :: "'a SocketImpl \<Rightarrow> SequenceNumber option" where
  "reliable_last s = map_option last_used_reliable_sn (sync s)"




text \<open>The messages handed to the unreliable callback, oldest first: sequence number
  and payload.\<close>

fun unreliable_delivered :: "event list \<Rightarrow> (SequenceNumber \<times> byte list) list" where
  "unreliable_delivered [] = []"
| "unreliable_delivered (Unreliable_msg sn payload # evs) = (sn, payload) # unreliable_delivered evs"
| "unreliable_delivered (ev # evs) = unreliable_delivered evs"

definition unreliable_last :: "'a SocketImpl \<Rightarrow> SequenceNumber option" where
  "unreliable_last s = map_option last_used_unreliable_sn (sync s)"

text \<open>The order of unreliable delivery: the delivered sequence numbers increase
  strictly, and on an endpoint that is alive none is above
  \<open>last_used_unreliable_sn\<close>.\<close>

definition unreliable_in_order :: "'a SocketImpl \<Rightarrow> bool" where
  "unreliable_in_order s =
     (sorted_wrt (<) (map fst (unreliable_delivered (trace s)))
      \<and> (unreliable_delivered (trace s) = [] \<or> was_destroyed s
           \<or> (case unreliable_last s of
                 None \<Rightarrow> False
               | Some l \<Rightarrow> fst (last (unreliable_delivered (trace s))) \<le> l)))"

text \<open>The pending message of the slot after the bytes of \<open>msg\<close> are merged into
  \<open>opm\<close>.\<close>

definition merged :: "InMessagePart \<Rightarrow> PendingMessage \<Rightarrow> PendingMessage" where
  "merged msg opm = update_payload (part_chunk_start msg) (part_payload msg) opm"

text \<open>The entry of the pending map that is due: the first one, in key order, whose
  message has the number \<open>last_used_reliable_sn + 1\<close>.\<close>

definition due_entry :: "'a SocketImpl \<Rightarrow> (SequenceNumber \<times> PendingMessage) option" where
  "due_entry s =
     (case sync s of
        None \<Rightarrow> None
      | Some sy \<Rightarrow>
          find (\<lambda>kv. pm_sequence_number (snd kv) = last_used_reliable_sn sy + 1)
            (pending_reliable_messages s))"






text \<open>The encoder of \<open>start_sending\<close> after the local ack set is written into it.\<close>

definition acks_encoder :: "'a externals \<Rightarrow> 'a SocketImpl \<Rightarrow> encoder" where
  "acks_encoder ops s = put (encode_AckSet ops (received_message_ids s)) (encoder_over packet_size)"

text \<open>An encoder has not written past its buffer; every packet of a trace has at
  most \<open>n\<close> bytes.\<close>

definition enc_ok :: "encoder \<Rightarrow> bool" where
  "enc_ok e = (written e \<le> enc_capacity e)"

fun packet_within :: "nat \<Rightarrow> event \<Rightarrow> bool" where
  "packet_within n (Send_to p ep) = (length p \<le> n)"
| "packet_within n (Async_send_to p ep) = (length p \<le> n)"
| "packet_within n ev = True"

definition packets_ok :: "'a SocketImpl \<Rightarrow> bool" where
  "packets_ok s = list_all (packet_within packet_size) (trace s)"

text \<open>Whether the loop of \<open>encode_payload\<close> is left by \<open>break\<close>, and two messages
  that differ at most in the fragmentation cursor.\<close>

definition stopped_early :: "'a externals \<Rightarrow> encoder \<Rightarrow> 'a SocketImpl \<Rightarrow> bool" where
  "stopped_early ops e s =
     snd (snd (snd (cycle_loop ops (received_message_ids_by_peer s) (transmit_queue s) []
                      (put (uint16_bytes 0) e) 0)))"

definition same_message :: "OutMessage \<Rightarrow> OutMessage \<Rightarrow> bool" where
  "same_message m m' =
     (resend_until_acked m' = resend_until_acked m \<and> out_type m' = out_type m
      \<and> out_sequence_number m' = out_sequence_number m \<and> out_payload m' = out_payload m)"

definition acked :: "'a externals \<Rightarrow> 'a \<Rightarrow> OutMessage \<Rightarrow> bool" where
  "acked ops acks m = (resend_until_acked m \<and> is_in ops acks (out_sequence_number m))"

subsection \<open>An instance of the parameters\<close>

text \<open>An \<open>AckSet\<close> that is the list of the numbers added, encoded in nine bytes, and a
  decoder for packets that carry the nine bytes and a message count. The theorems hold
  for every instance; this one evaluates them at concrete inputs.\<close>

definition example_externals :: "SequenceNumber list externals" where
  "example_externals =
     \<lparr>can_add = (\<lambda>a sn. sn \<notin> set a),
      try_add = (\<lambda>a sn. if sn \<in> set a then a else a @ [sn]),
      is_in = (\<lambda>a sn. sn \<in> set a),
      encode_AckSet = (\<lambda>a. replicate 9 0),
      get_AckSet = (\<lambda>bs. if length bs < 9 then None else Some ([], drop 9 bs)),
      get_uint16 = (\<lambda>bs. case bs of hi # lo # r \<Rightarrow> Some (unat hi * 256 + unat lo, r) | _ \<Rightarrow> None),
      get_InMessagePart = (\<lambda>bs. None)\<rparr>"

subsection \<open>Concrete inputs\<close>

text \<open>A reliable callback that registers a callback again, a \<open>sync\<close> message with the
  number 5, the endpoint that has a callback and has received that message, and the
  complete reliable message 6 with three bytes of payload.\<close>

definition rearm :: OnReceive where
  "rearm = OnReceive (\<lambda>e b. [Call_receive_reliable (OnReceive (\<lambda>e b. []))])"

definition sync5 :: InMessagePart where
  "sync5 = \<lparr>part_type = MessageType_sync, part_sequence_number = 5, part_original_size = 0,
            part_chunk_start = 0, part_payload = []\<rparr>"

definition synced :: "SequenceNumber list SocketImpl" where
  "synced = handle_sync_message example_externals sync5 (receive_reliable rearm (SocketImpl_new []))"

definition part6 :: InMessagePart where
  "part6 = \<lparr>part_type = MessageType_reliable, part_sequence_number = 6, part_original_size = 3,
            part_chunk_start = 0, part_payload = [1, 2, 3]\<rparr>"

definition full6 :: InMessageFull where
  "full6 = \<lparr>full_type = MessageType_reliable, full_sequence_number = 6, full_payload = [1, 2, 3]\<rparr>"

text \<open>An unreliable callback that registers nothing, the endpoint \<open>synced\<close> with that
  callback, the unreliable message 7 of four bytes in two fragments, and the complete
  unreliable message 8.\<close>

definition idle_callback :: OnReceive where
  "idle_callback = OnReceive (\<lambda>e b. [])"

definition listening :: "SequenceNumber list SocketImpl" where
  "listening = receive_unreliable idle_callback synced"

definition frag7a :: InMessagePart where
  "frag7a = \<lparr>part_type = MessageType_unreliable, part_sequence_number = 7,
             part_original_size = 4, part_chunk_start = 0, part_payload = [1, 2]\<rparr>"

definition frag7b :: InMessagePart where
  "frag7b = \<lparr>part_type = MessageType_unreliable, part_sequence_number = 7,
             part_original_size = 4, part_chunk_start = 2, part_payload = [3, 4]\<rparr>"

definition part8 :: InMessagePart where
  "part8 = \<lparr>part_type = MessageType_unreliable, part_sequence_number = 8,
            part_original_size = 1, part_chunk_start = 0, part_payload = [9]\<rparr>"

text \<open>The endpoint that has received \<open>sync5\<close> and has no callback, the reliable
  message 6 of two bytes in two fragments, the endpoint that has received both
  fragments (\<open>stalled\<close>, with the pending message \<open>pending6\<close>) and then got a callback
  (\<open>waiting\<close>), and the complete reliable message 7.\<close>

definition deaf :: "SequenceNumber list SocketImpl" where
  "deaf = handle_sync_message example_externals sync5 (SocketImpl_new [])"

definition frag6a :: InMessagePart where
  "frag6a = \<lparr>part_type = MessageType_reliable, part_sequence_number = 6,
             part_original_size = 2, part_chunk_start = 0, part_payload = [1]\<rparr>"

definition frag6b :: InMessagePart where
  "frag6b = \<lparr>part_type = MessageType_reliable, part_sequence_number = 6,
             part_original_size = 2, part_chunk_start = 1, part_payload = [2]\<rparr>"

definition stalled :: "SequenceNumber list SocketImpl" where
  "stalled =
     handle_reliable_message example_externals frag6b
       (handle_reliable_message example_externals frag6a deaf)"


definition full6' :: InMessageFull where
  "full6' = \<lparr>full_type = MessageType_reliable, full_sequence_number = 6, full_payload = [1, 2]\<rparr>"

definition pending6 :: PendingMessage where
  "pending6 = \<lparr>pm_type = MessageType_reliable, pm_sequence_number = 6, pm_size = 2,
               pm_payload = [1, 2], pm_coverage = [True, True]\<rparr>"


text \<open>Two peers, a datagram that carries an ack set and the message count 0, and the
  endpoint as constructed with that datagram received from the first peer.\<close>

definition peer1 :: endpoint where
  "peer1 = \<lparr>ep_address = address_v4 0x0A000001, ep_port = 9\<rparr>"

definition peer2 :: endpoint where
  "peer2 = \<lparr>ep_address = address_v4 0x0A000002, ep_port = 9\<rparr>"

definition empty_packet :: "byte list" where
  "empty_packet = [0, 0, 0, 0, 0, 0, 0, 0, 0, 0, 0]"

definition unconnected :: "SequenceNumber list SocketImpl" where
  "unconnected = (SocketImpl_new [])\<lparr>rx_endpoint := peer1, rx_buffer := empty_packet\<rparr>"





text \<open>The endpoint as constructed with one reliable message of three bytes in its
  queue.\<close>

definition sender :: "SequenceNumber list SocketImpl" where
  "sender = add_message True MessageType_reliable 0 [1, 2, 3] (SocketImpl_new [])"

definition sender_packet :: "byte list" where
  "sender_packet =
     [0, 0, 0, 0, 0, 0, 0, 0, 0, 0, 1, 1, 1, 0, 0, 0, 0, 0, 3, 0, 0, 0, 3, 1, 2, 3]"

text \<open>The endpoint as constructed with two reliable messages in its queue, the first
  of 4000 bytes, after the peer has acknowledged the second one.\<close>

definition big_message :: OutMessage where
  "big_message =
     \<lparr>resend_until_acked = True, out_type = MessageType_reliable, out_sequence_number = 0,
      out_payload = replicate 4000 0, bytes_already_sent = 0\<rparr>"

definition small_message :: OutMessage where
  "small_message =
     \<lparr>resend_until_acked = True, out_type = MessageType_reliable, out_sequence_number = 1,
      out_payload = [7], bytes_already_sent = 0\<rparr>"

definition backlog :: "SequenceNumber list SocketImpl" where
  "backlog =
     handle_acks [1]
       (add_message True MessageType_reliable 1 [7]
          (add_message True MessageType_reliable 0 (replicate 4000 0) (SocketImpl_new [])))"

text \<open>The endpoint as constructed whose queue holds one reliable message, which the
  peer has acknowledged.\<close>

definition settled :: "SequenceNumber list SocketImpl" where
  "settled = handle_acks [1] (add_message True MessageType_reliable 1 [7] (SocketImpl_new []))"

section \<open>Properties\<close>

subsection \<open>What close and the callbacks leave alone\<close>

lemma delivered_append: "delivered (xs @ ys) = delivered xs @ delivered ys"
  by (induction xs rule: delivered.induct) auto

lemma close_frame:
  "sync (close ops s) = sync s \<and>
   received_message_ids (close ops s) = received_message_ids s \<and>
   received_message_ids_by_peer (close ops s) = received_message_ids_by_peer s \<and>
   pending_reliable_messages (close ops s) = pending_reliable_messages s \<and>
   pending_unreliable_message (close ops s) = pending_unreliable_message s \<and>
   transmit_queue (close ops s) = transmit_queue s \<and>
   send_state (close ops s) = send_state s \<and>
   schedule_sending_acks (close ops s) = schedule_sending_acks s \<and>
   was_destroyed (close ops s) = was_destroyed s \<and>
   on_receive_reliable (close ops s) = on_receive_reliable s \<and>
   on_receive_unreliable (close ops s) = on_receive_unreliable s \<and>
   on_flush (close ops s) = on_flush s \<and>
   remote_endpoint (close ops s) = remote_endpoint s \<and>
   socket_is_open (close ops s) = False \<and>
   recv_timeout_alarm (close ops s) = None \<and>
   send_keepalive_alarm (close ops s) = None"
  by (simp add: close_def sync_send_close_message_def emit_def Let_def)

lemma perform_frame:
  "sync (perform ops a s) = sync s \<and>
   received_message_ids (perform ops a s) = received_message_ids s \<and>
   received_message_ids_by_peer (perform ops a s) = received_message_ids_by_peer s \<and>
   pending_reliable_messages (perform ops a s) = pending_reliable_messages s \<and>
   pending_unreliable_message (perform ops a s) = pending_unreliable_message s \<and>
   transmit_queue (perform ops a s) = transmit_queue s \<and>
   send_state (perform ops a s) = send_state s \<and>
   schedule_sending_acks (perform ops a s) = schedule_sending_acks s \<and>
   remote_endpoint (perform ops a s) = remote_endpoint s"
  by (cases a)
     (simp_all add: close_frame receive_reliable_def receive_unreliable_def flush_def destroy_def)

lemma run_actions_frame:
  "sync (run_actions ops as s) = sync s \<and>
   received_message_ids (run_actions ops as s) = received_message_ids s \<and>
   received_message_ids_by_peer (run_actions ops as s) = received_message_ids_by_peer s \<and>
   pending_reliable_messages (run_actions ops as s) = pending_reliable_messages s \<and>
   pending_unreliable_message (run_actions ops as s) = pending_unreliable_message s \<and>
   transmit_queue (run_actions ops as s) = transmit_queue s \<and>
   send_state (run_actions ops as s) = send_state s \<and>
   schedule_sending_acks (run_actions ops as s) = schedule_sending_acks s \<and>
   remote_endpoint (run_actions ops as s) = remote_endpoint s"
  by (induction as arbitrary: s) (simp_all add: perform_frame)

lemma perform_destroyed_mono: "was_destroyed s \<Longrightarrow> was_destroyed (perform ops a s)"
  by (cases a)
     (simp_all add: close_frame receive_reliable_def receive_unreliable_def flush_def destroy_def)

lemma run_actions_destroyed_mono: "was_destroyed s \<Longrightarrow> was_destroyed (run_actions ops as s)"
  by (cases as) simp_all

lemma close_delivered: "delivered (trace (close ops s)) = delivered (trace s)"
  by (simp add: close_def sync_send_close_message_def emit_def Let_def delivered_append)

lemma perform_delivered: "delivered (trace (perform ops a s)) = delivered (trace s)"
  by (cases a)
     (simp_all add: close_delivered receive_reliable_def receive_unreliable_def flush_def destroy_def)

lemma run_actions_delivered: "delivered (trace (run_actions ops as s)) = delivered (trace s)"
  by (induction as arbitrary: s) (simp_all add: perform_delivered)

subsection \<open>Reliable delivery in order\<close>

lemma uh_none: "on_receive_reliable s = None \<Longrightarrow> user_handle_reliable_msg ops m s = (False, s)"
  by (simp add: user_handle_reliable_msg_def)

lemma uh_delivered:
  "delivered (trace (snd (user_handle_reliable_msg ops m s))) =
     delivered (trace s) @ (if on_receive_reliable s = None then [] else [m])"
  by (auto simp: user_handle_reliable_msg_def Let_def run_actions_delivered emit_def
        delivered_append split: option.splits)

lemma uh_ok:
  "fst (user_handle_reliable_msg ops m s) \<Longrightarrow>
     \<not> was_destroyed (snd (user_handle_reliable_msg ops m s)) \<and>
     on_receive_reliable s \<noteq> None \<and>
     sync (snd (user_handle_reliable_msg ops m s)) =
       map_option (\<lambda>sy. sy\<lparr>last_used_reliable_sn := full_sequence_number m\<rparr>) (sync s) \<and>
     received_message_ids (snd (user_handle_reliable_msg ops m s)) =
       try_add ops (received_message_ids s) (full_sequence_number m) \<and>
     pending_reliable_messages (snd (user_handle_reliable_msg ops m s)) =
       pending_reliable_messages s"
  by (auto simp: user_handle_reliable_msg_def Let_def run_actions_frame emit_def
        split: option.splits if_splits)


lemma uh_destroyed_mono:
  "was_destroyed s \<Longrightarrow> was_destroyed (snd (user_handle_reliable_msg ops m s))"
  by (auto simp: user_handle_reliable_msg_def Let_def run_actions_destroyed_mono emit_def
        split: option.splits if_splits)








lemma replay_loop_delivered:
  "\<exists>ds. delivered (trace (replay_loop ops pms s)) = delivered (trace s) @ ds \<and>
        (\<forall>m \<in> set ds. \<exists>kv \<in> set pms. pm_get_complete_message (snd kv) = Some m)"
proof (induction pms arbitrary: s)
  case Nil
  then show ?case by simp
next
  case (Cons kv rest)
  obtain k pm where kv: "kv = (k, pm)" by (cases kv)
  show ?case
  proof (cases "sync s")
    case None
    with kv show ?thesis by simp
  next
    case (Some sy)
    show ?thesis
    proof (cases "pm_sequence_number pm = last_used_reliable_sn sy + 1")
      case False
      from Cons.IH [of s] obtain ds where
        "delivered (trace (replay_loop ops rest s)) = delivered (trace s) @ ds"
        "\<forall>m \<in> set ds. \<exists>kv \<in> set rest. pm_get_complete_message (snd kv) = Some m" by blast
      with False Some kv show ?thesis by auto
    next
      case sn: True
      show ?thesis
      proof (cases "pm_get_complete_message pm")
        case None
        with Some kv sn show ?thesis by simp
      next
        case full: (Some m)
        let ?r = "user_handle_reliable_msg ops m s"
        show ?thesis
        proof (cases "fst ?r")
          case False
          have "delivered (trace (snd ?r)) = delivered (trace s) @ (if on_receive_reliable s = None then [] else [m])"
            by (rule uh_delivered)
          with False Some kv sn full show ?thesis by (auto simp: Let_def)
        next
          case True
          let ?s1 = "(snd ?r)\<lparr>pending_reliable_messages :=
                        map_erase k (pending_reliable_messages (snd ?r))\<rparr>"
          from Cons.IH [of ?s1] obtain ds where ds:
            "delivered (trace (replay_loop ops rest ?s1)) = delivered (trace ?s1) @ ds"
            "\<forall>m \<in> set ds. \<exists>kv \<in> set rest. pm_get_complete_message (snd kv) = Some m" by blast
          have "delivered (trace ?s1) = delivered (trace s) @ [m]"
            using uh_ok [OF True] by (simp add: uh_delivered)
          with ds have "delivered (trace (replay_loop ops rest ?s1)) = delivered (trace s) @ (m # ds)"
            by simp
          moreover have "\<forall>x \<in> set (m # ds). \<exists>kv \<in> set (kv # rest). pm_get_complete_message (snd kv) = Some x"
            using ds(2) full kv by auto
          moreover have "replay_loop ops (kv # rest) s = replay_loop ops rest ?s1"
            using True Some kv sn full by (simp add: Let_def)
          ultimately show ?thesis by metis
        qed
      qed
    qed
  qed
qed



lemma encode_payload_frame:
  "trace (snd (snd (encode_payload ops e s))) = trace s \<and>
   sync (snd (snd (encode_payload ops e s))) = sync s \<and>
   was_destroyed (snd (snd (encode_payload ops e s))) = was_destroyed s \<and>
   socket_is_open (snd (snd (encode_payload ops e s))) = socket_is_open s \<and>
   on_flush (snd (snd (encode_payload ops e s))) = on_flush s \<and>
   schedule_sending_acks (snd (snd (encode_payload ops e s))) = schedule_sending_acks s \<and>
   remote_endpoint (snd (snd (encode_payload ops e s))) = remote_endpoint s \<and>
   send_state (snd (snd (encode_payload ops e s))) = send_state s \<and>
   send_keepalive_alarm (snd (snd (encode_payload ops e s))) = send_keepalive_alarm s"
  by (simp add: encode_payload_def Let_def)






lemma handle_sync_message_frame:
  "was_destroyed (handle_sync_message ops msg s) = was_destroyed s \<and>
   trace (handle_sync_message ops msg s) = trace s"
  by (simp add: handle_sync_message_def Let_def split: option.splits)














lemma synced_eval: "synced = \<lparr>send_state = SendState_pending, socket_is_open = True,
      remote_endpoint = \<lparr>ep_address = address_v4 0, ep_port = 0\<rparr>,
      transmit_queue = [], timer = None, was_destroyed = False,
      rx_endpoint = \<lparr>ep_address = address_v4 0, ep_port = 0\<rparr>,
      rx_buffer = replicate packet_size 0,
      sync = Some \<lparr>last_used_reliable_sn = 5, last_used_unreliable_sn = 5\<rparr>,
      pending_reliable_messages = [], pending_unreliable_message = None,
      schedule_sending_acks = True,
      received_message_ids_by_peer = [], received_message_ids = [5],
      next_reliable_sn = 0, next_unreliable_sn = 1,
      on_receive_reliable = Some rearm, on_receive_unreliable = None, on_flush = None,
      recv_timeout_alarm = None, send_keepalive_alarm = None, trace = []\<rparr>"
  by (simp add: synced_def example_externals_def sync5_def SocketImpl_new_def handle_sync_message_def receive_reliable_def Let_def)




subsection \<open>Unreliable delivery\<close>

lemma unreliable_delivered_append:
  "unreliable_delivered (xs @ ys) = unreliable_delivered xs @ unreliable_delivered ys"
  by (induction xs rule: unreliable_delivered.induct) auto

lemma close_unreliable_delivered:
  "unreliable_delivered (trace (close ops s)) = unreliable_delivered (trace s)"
  by (simp add: close_def sync_send_close_message_def emit_def Let_def unreliable_delivered_append)

lemma perform_unreliable_delivered:
  "unreliable_delivered (trace (perform ops a s)) = unreliable_delivered (trace s)"
  by (cases a)
     (simp_all add: close_unreliable_delivered receive_reliable_def receive_unreliable_def
        flush_def destroy_def)

lemma run_actions_unreliable_delivered:
  "unreliable_delivered (trace (run_actions ops as s)) = unreliable_delivered (trace s)"
  by (induction as arbitrary: s) (simp_all add: perform_unreliable_delivered)

lemma deliver_unreliable_delivered:
  "unreliable_delivered (trace (deliver_unreliable ops sn payload s)) =
     unreliable_delivered (trace s) @ (if on_receive_unreliable s = None then [] else [(sn, payload)])"
  by (simp add: deliver_unreliable_def Let_def run_actions_unreliable_delivered emit_def
        unreliable_delivered_append split: option.splits)

lemma deliver_unreliable_alive:
  "\<not> was_destroyed (deliver_unreliable ops sn payload s) \<Longrightarrow> on_receive_unreliable s \<noteq> None \<Longrightarrow>
   sync s \<noteq> None \<Longrightarrow>
   unreliable_last (deliver_unreliable ops sn payload s) = Some sn \<and>
   pending_unreliable_message (deliver_unreliable ops sn payload s) = None"
  by (auto simp: deliver_unreliable_def Let_def run_actions_frame emit_def unreliable_last_def
        split: option.splits if_splits)

lemma handle_unreliable_message_delivered:
  fixes s :: "'a SocketImpl"
  shows
  "unreliable_delivered (trace (handle_unreliable_message ops msg s)) = unreliable_delivered (trace s)
     \<and> unreliable_last (handle_unreliable_message ops msg s) = unreliable_last s
     \<and> was_destroyed (handle_unreliable_message ops msg s) = was_destroyed s
   \<or> (\<exists>payload.
        unreliable_delivered (trace (handle_unreliable_message ops msg s)) =
          unreliable_delivered (trace s) @ [(part_sequence_number msg, payload)]
        \<and> (\<exists>l. unreliable_last s = Some l \<and> l < part_sequence_number msg)
        \<and> on_receive_unreliable s \<noteq> None
        \<and> (was_destroyed (handle_unreliable_message ops msg s)
            \<or> unreliable_last (handle_unreliable_message ops msg s) = Some (part_sequence_number msg)
              \<and> pending_unreliable_message (handle_unreliable_message ops msg s) = None))"
proof -
  have du: "\<And>p s1. on_receive_unreliable (s1 :: 'a SocketImpl) \<noteq> None \<Longrightarrow> sync s1 \<noteq> None \<Longrightarrow>
      unreliable_delivered (trace s1) = unreliable_delivered (trace s) \<Longrightarrow>
      unreliable_delivered (trace (deliver_unreliable ops (part_sequence_number msg) p s1)) =
          unreliable_delivered (trace s) @ [(part_sequence_number msg, p)]
      \<and> (was_destroyed (deliver_unreliable ops (part_sequence_number msg) p s1)
            \<or> unreliable_last (deliver_unreliable ops (part_sequence_number msg) p s1) = Some (part_sequence_number msg)
              \<and> pending_unreliable_message (deliver_unreliable ops (part_sequence_number msg) p s1) = None)"
  proof -
    fix p and s1 :: "'a SocketImpl"
    assume "on_receive_unreliable s1 \<noteq> None" "sync s1 \<noteq> None"
      "unreliable_delivered (trace s1) = unreliable_delivered (trace s)"
    then show "unreliable_delivered (trace (deliver_unreliable ops (part_sequence_number msg) p s1)) =
          unreliable_delivered (trace s) @ [(part_sequence_number msg, p)]
      \<and> (was_destroyed (deliver_unreliable ops (part_sequence_number msg) p s1)
            \<or> unreliable_last (deliver_unreliable ops (part_sequence_number msg) p s1) = Some (part_sequence_number msg)
              \<and> pending_unreliable_message (deliver_unreliable ops (part_sequence_number msg) p s1) = None)"
      using deliver_unreliable_alive [of ops "part_sequence_number msg" p s1]
      by (auto simp: deliver_unreliable_delivered)
  qed
  show ?thesis
  proof (cases "on_receive_unreliable s = None \<or> sync s = None")
    case True
    then show ?thesis by (auto simp: handle_unreliable_message_def unreliable_last_def)
  next
    case False
    then obtain sy where sy: "sync s = Some sy" and cb: "on_receive_unreliable s \<noteq> None" by auto
    show ?thesis
    proof (cases "part_sequence_number msg \<le> last_used_unreliable_sn sy")
      case True
      then show ?thesis using sy by (simp add: handle_unreliable_message_def unreliable_last_def)
    next
      case gt: False
      then have l: "\<exists>l. unreliable_last s = Some l \<and> l < part_sequence_number msg"
        using sy by (simp add: unreliable_last_def)
      show ?thesis
      proof (cases "part_is_complete msg")
        case True
        then have "handle_unreliable_message ops msg s =
            deliver_unreliable ops (part_sequence_number msg) (part_payload msg) s"
          using sy cb gt by (auto simp: handle_unreliable_message_def)
        then show ?thesis using du [of s "part_payload msg"] cb sy l by auto
      next
        case nc: False
        show ?thesis
        proof (cases "pending_unreliable_message s")
          case None
          then show ?thesis using sy cb gt nc
            by (auto simp: handle_unreliable_message_def unreliable_last_def)
        next
          case (Some opm)
          let ?pm = "update_payload (part_chunk_start msg) (part_payload msg) opm"
          let ?s1 = "s\<lparr>pending_unreliable_message := Some ?pm\<rparr>"
          show ?thesis
          proof (cases "pm_sequence_number opm = part_sequence_number msg \<and> pm_is_complete ?pm")
            case True
            then have "handle_unreliable_message ops msg s =
              deliver_unreliable ops (part_sequence_number msg) (pm_payload ?pm) ?s1"
              using sy cb gt nc Some by (auto simp: handle_unreliable_message_def Let_def)
            then show ?thesis using du [of ?s1 "pm_payload ?pm"] cb sy l by auto
          next
            case False
            then show ?thesis using sy cb gt nc Some
              by (auto simp: handle_unreliable_message_def Let_def unreliable_last_def)
          qed
        qed
      qed
    qed
  qed
qed


lemma sorted_wrt_less_last:
  "sorted_wrt (<) xs \<Longrightarrow> y \<in> set xs \<Longrightarrow> y \<le> last (xs :: SequenceNumber list)"
  by (induction xs) (auto simp: less_imp_le)

lemma handle_unreliable_message_in_order:
  fixes s :: "'a SocketImpl"
  assumes "unreliable_in_order s" "\<not> was_destroyed s"
  shows "unreliable_in_order (handle_unreliable_message ops msg s)"
proof -
  let ?s' = "handle_unreliable_message ops msg s"
  from handle_unreliable_message_delivered [of ops msg s]
  consider (same) "unreliable_delivered (trace ?s') = unreliable_delivered (trace s)"
      "unreliable_last ?s' = unreliable_last s" "was_destroyed ?s' = was_destroyed s"
    | (new) payload l where
      "unreliable_delivered (trace ?s') = unreliable_delivered (trace s) @ [(part_sequence_number msg, payload)]"
      "unreliable_last s = Some l" "l < part_sequence_number msg"
      "was_destroyed ?s' \<or> unreliable_last ?s' = Some (part_sequence_number msg)"
    by blast
  then show ?thesis
  proof cases
    case same
    with assms show ?thesis by (auto simp: unreliable_in_order_def split: option.splits)
  next
    case new
    let ?old = "map fst (unreliable_delivered (trace s))"
    have srt: "sorted_wrt (<) ?old" using assms(1) by (simp add: unreliable_in_order_def)
    have "\<forall>y \<in> set ?old. y < part_sequence_number msg"
    proof
      fix y assume y: "y \<in> set ?old"
      then have ne: "unreliable_delivered (trace s) \<noteq> []" by auto
      have "y \<le> last ?old" using srt y by (rule sorted_wrt_less_last)
      also have "last ?old = fst (last (unreliable_delivered (trace s)))"
        using ne by (simp add: last_map)
      also have "\<dots> \<le> l" using assms ne new(2)
        by (auto simp: unreliable_in_order_def split: option.splits)
      finally show "y < part_sequence_number msg" using new(3) by simp
    qed
    with srt new(1,4) show ?thesis
      by (auto simp: unreliable_in_order_def sorted_wrt_append split: option.splits)
  qed
qed

lemma pm7a:
  "PendingMessage_of frag7a =
     \<lparr>pm_type = MessageType_unreliable, pm_sequence_number = 7, pm_size = 4,
      pm_payload = [1, 2, 0, 0], pm_coverage = [True, True, False, False]\<rparr>"
  by (simp add: PendingMessage_of_def frag7a_def update_payload_def copy_into_def eval_nat_numeral)

lemma pm7b:
  "merged frag7b (PendingMessage_of frag7a) =
     \<lparr>pm_type = MessageType_unreliable, pm_sequence_number = 7, pm_size = 4,
      pm_payload = [1, 2, 3, 4], pm_coverage = [True, True, True, True]\<rparr>"
  by (simp add: pm7a merged_def frag7b_def update_payload_def copy_into_def)

text \<open>
  C4. \<open>handle_unreliable_message\<close> hands at most one message to the unreliable
  callback, and only one whose number is above \<open>last_used_unreliable_sn\<close>; unless the
  callback destroyed the endpoint, the counter is then that number and the slot is
  empty. A complete part above the counter is handed over as it is. A fragment above
  the counter replaces the slot when the slot is empty or holds a smaller number, is
  discarded when the slot holds a larger number, and is merged when the numbers are
  equal; the merged message is handed over if it is complete and stays in the slot
  otherwise. The numbers handed over increase strictly.
\<close>

theorem unreliable_delivery:
  fixes s :: "'a SocketImpl"
  shows
  "(unreliable_delivered (trace (handle_unreliable_message ops msg s)) = unreliable_delivered (trace s)
      \<and> unreliable_last (handle_unreliable_message ops msg s) = unreliable_last s
      \<and> was_destroyed (handle_unreliable_message ops msg s) = was_destroyed s
    \<or> (\<exists>payload.
         unreliable_delivered (trace (handle_unreliable_message ops msg s)) =
           unreliable_delivered (trace s) @ [(part_sequence_number msg, payload)]
         \<and> (\<exists>l. unreliable_last s = Some l \<and> l < part_sequence_number msg)
         \<and> on_receive_unreliable s \<noteq> None
         \<and> (was_destroyed (handle_unreliable_message ops msg s)
             \<or> unreliable_last (handle_unreliable_message ops msg s) = Some (part_sequence_number msg)
               \<and> pending_unreliable_message (handle_unreliable_message ops msg s) = None)))
   \<and> (on_receive_unreliable s \<noteq> None \<and> unreliable_last s = Some l
        \<and> l < part_sequence_number msg \<and> part_is_complete msg
      \<longrightarrow> unreliable_delivered (trace (handle_unreliable_message ops msg s)) =
            unreliable_delivered (trace s) @ [(part_sequence_number msg, part_payload msg)])
   \<and> (on_receive_unreliable s \<noteq> None \<and> unreliable_last s = Some l
        \<and> l < part_sequence_number msg \<and> \<not> part_is_complete msg
      \<longrightarrow> (case pending_unreliable_message s of
             None \<Rightarrow>
               handle_unreliable_message ops msg s =
                 s\<lparr>pending_unreliable_message := Some (PendingMessage_of msg)\<rparr>
           | Some opm \<Rightarrow>
               if pm_sequence_number opm < part_sequence_number msg
               then handle_unreliable_message ops msg s =
                      s\<lparr>pending_unreliable_message := Some (PendingMessage_of msg)\<rparr>
               else if part_sequence_number msg < pm_sequence_number opm
               then handle_unreliable_message ops msg s = s
               else if pm_is_complete (merged msg opm)
               then unreliable_delivered (trace (handle_unreliable_message ops msg s)) =
                      unreliable_delivered (trace s)
                        @ [(part_sequence_number msg, pm_payload (merged msg opm))]
               else handle_unreliable_message ops msg s =
                      s\<lparr>pending_unreliable_message := Some (merged msg opm)\<rparr>))
   \<and> (unreliable_in_order s \<and> \<not> was_destroyed s
      \<longrightarrow> unreliable_in_order (handle_unreliable_message ops msg s))"
proof -
  have complete: "on_receive_unreliable s \<noteq> None \<and> unreliable_last s = Some l
        \<and> l < part_sequence_number msg \<and> part_is_complete msg
      \<longrightarrow> unreliable_delivered (trace (handle_unreliable_message ops msg s)) =
            unreliable_delivered (trace s) @ [(part_sequence_number msg, part_payload msg)]"
    by (auto simp: handle_unreliable_message_def unreliable_last_def deliver_unreliable_delivered)
  have slot: "on_receive_unreliable s \<noteq> None \<and> unreliable_last s = Some l
        \<and> l < part_sequence_number msg \<and> \<not> part_is_complete msg
      \<longrightarrow> (case pending_unreliable_message s of
             None \<Rightarrow>
               handle_unreliable_message ops msg s =
                 s\<lparr>pending_unreliable_message := Some (PendingMessage_of msg)\<rparr>
           | Some opm \<Rightarrow>
               if pm_sequence_number opm < part_sequence_number msg
               then handle_unreliable_message ops msg s =
                      s\<lparr>pending_unreliable_message := Some (PendingMessage_of msg)\<rparr>
               else if part_sequence_number msg < pm_sequence_number opm
               then handle_unreliable_message ops msg s = s
               else if pm_is_complete (merged msg opm)
               then unreliable_delivered (trace (handle_unreliable_message ops msg s)) =
                      unreliable_delivered (trace s)
                        @ [(part_sequence_number msg, pm_payload (merged msg opm))]
               else handle_unreliable_message ops msg s =
                      s\<lparr>pending_unreliable_message := Some (merged msg opm)\<rparr>)"
    by (auto simp: handle_unreliable_message_def unreliable_last_def deliver_unreliable_delivered
          merged_def Let_def split: option.splits)
  show ?thesis
    using handle_unreliable_message_delivered [of ops msg s] complete slot
      handle_unreliable_message_in_order [of s ops msg]
    by blast
qed

lemma listening_eval:
  "on_receive_unreliable listening = Some idle_callback \<and> unreliable_last listening = Some 5
   \<and> trace listening = [] \<and> \<not> was_destroyed listening
   \<and> pending_unreliable_message listening = None"
  by (simp add: listening_def receive_unreliable_def synced_eval unreliable_last_def)

theorem unreliable_delivery_witness:
  "on_receive_unreliable listening \<noteq> None \<and> unreliable_last listening = Some 5
   \<and> 5 < part_sequence_number part8 \<and> part_is_complete part8
   \<and> unreliable_delivered (trace (handle_unreliable_message example_externals part8 listening)) =
       [(8, [9])]
   \<and> 5 < part_sequence_number frag7a \<and> \<not> part_is_complete frag7a
   \<and> handle_unreliable_message example_externals frag7a listening =
       listening\<lparr>pending_unreliable_message := Some (PendingMessage_of frag7a)\<rparr>
   \<and> \<not> part_is_complete frag7b
   \<and> pm_is_complete (merged frag7b (PendingMessage_of frag7a))
   \<and> unreliable_delivered
        (trace (handle_unreliable_message example_externals frag7b
                 (listening\<lparr>pending_unreliable_message := Some (PendingMessage_of frag7a)\<rparr>))) =
       [(7, [1, 2, 3, 4])]
   \<and> unreliable_in_order listening
   \<and> unreliable_in_order (handle_unreliable_message example_externals part8 listening)"
proof -
  note t1 = unreliable_delivery [where s = listening and ops = example_externals and msg = part8
      and l = 5]
  note t2 = unreliable_delivery [where s = listening and ops = example_externals and msg = frag7a
      and l = 5]
  note t3 = unreliable_delivery [where ops = example_externals and msg = frag7b and l = 5
      and s = "listening\<lparr>pending_unreliable_message := Some (PendingMessage_of frag7a)\<rparr>"]
  note e = listening_eval
  have p8: "5 < part_sequence_number part8" "part_is_complete part8"
    "part_sequence_number part8 = 8" "part_payload part8 = [9]"
    by (simp_all add: part8_def part_is_complete_def)
  have pa: "5 < part_sequence_number frag7a" "\<not> part_is_complete frag7a"
    by (simp_all add: frag7a_def part_is_complete_def)
  have pb0: "5 < part_sequence_number frag7b" "\<not> part_is_complete frag7b"
    "part_sequence_number frag7b = 7"
    by (simp_all add: frag7b_def part_is_complete_def)
  have pb1: "pm_sequence_number (PendingMessage_of frag7a) = 7"
    "pm_is_complete (merged frag7b (PendingMessage_of frag7a))"
    "pm_payload (merged frag7b (PendingMessage_of frag7a)) = [1, 2, 3, 4]"
    by (simp_all add: pm7b pm_is_complete_def) (simp add: pm7a)
  note pb = pb0 pb1
  have io: "unreliable_in_order listening" using e by (simp add: unreliable_in_order_def)
  from t1 e p8 have d8: "unreliable_delivered (trace (handle_unreliable_message example_externals part8 listening)) =
       [(8, [9])]" by simp
  from t1 io e have io8: "unreliable_in_order (handle_unreliable_message example_externals part8 listening)"
    by blast
  from t2 e pa have sa: "handle_unreliable_message example_externals frag7a listening =
       listening\<lparr>pending_unreliable_message := Some (PendingMessage_of frag7a)\<rparr>" by simp
  from t3 e pb have db: "unreliable_delivered
        (trace (handle_unreliable_message example_externals frag7b
                 (listening\<lparr>pending_unreliable_message := Some (PendingMessage_of frag7a)\<rparr>))) =
       [(7, [1, 2, 3, 4])]" by (simp add: unreliable_last_def)
  show ?thesis using e p8 pa pb io d8 io8 sa db by (intro conjI) simp_all
qed

subsection \<open>Pending messages, with and without a callback\<close>

lemma replay_loop_no_callback:
  "on_receive_reliable s = None \<Longrightarrow> replay_loop ops pms s = s"
proof (induction pms)
  case Nil
  then show ?case by simp
next
  case (Cons kv rest)
  obtain k pm where kv: "kv = (k, pm)" by (cases kv)
  show ?case using Cons kv
    by (auto simp: uh_none Let_def split: option.splits)
qed


lemma replay_loop_due:
  "sync s = Some sy \<Longrightarrow>
   find (\<lambda>kv. pm_sequence_number (snd kv) = last_used_reliable_sn sy + 1) pms = Some kv \<Longrightarrow>
   pm_get_complete_message (snd kv) = Some m \<Longrightarrow> on_receive_reliable s \<noteq> None \<Longrightarrow>
   \<exists>ds. delivered (trace (replay_loop ops pms s)) = delivered (trace s) @ m # ds"
proof (induction pms)
  case Nil
  then show ?case by simp
next
  case (Cons e rest)
  obtain k pm where e: "e = (k, pm)" by (cases e)
  show ?case
  proof (cases "pm_sequence_number pm = last_used_reliable_sn sy + 1")
    case False
    then show ?thesis using Cons e by simp
  next
    case True
    then have kv: "kv = (k, pm)" using Cons.prems(2) e by simp
    let ?r = "user_handle_reliable_msg ops m s"
    have d: "delivered (trace (snd ?r)) = delivered (trace s) @ [m]"
      using uh_delivered [of ops m s] Cons.prems(4) by simp
    show ?thesis
    proof (cases "fst ?r")
      case False
      then have "replay_loop ops (e # rest) s = snd ?r"
        using True kv e Cons.prems by (simp add: Let_def)
      then show ?thesis using d by simp
    next
      case ok: True
      let ?s1 = "(snd ?r)\<lparr>pending_reliable_messages :=
                        map_erase k (pending_reliable_messages (snd ?r))\<rparr>"
      have "replay_loop ops (e # rest) s = replay_loop ops rest ?s1"
        using ok True kv e Cons.prems by (simp add: Let_def)
      moreover from replay_loop_delivered [of ops rest ?s1] obtain ds where
        "delivered (trace (replay_loop ops rest ?s1)) = delivered (trace ?s1) @ ds" by blast
      ultimately show ?thesis using d by simp
    qed
  qed
qed

lemma replay_pending_messages_no_callback:
  "on_receive_reliable s = None \<Longrightarrow> replay_pending_messages ops s = s"
  by (simp add: replay_pending_messages_def replay_loop_no_callback)

lemma handle_reliable_message_no_callback:
  assumes "on_receive_reliable s = None"
  shows "handle_reliable_message ops msg s =
     (if reliable_last s = None
         \<or> \<not> can_add ops (received_message_ids s) (part_sequence_number msg)
         \<or> (reliable_last s = Some (part_sequence_number msg - 1) \<and> part_is_complete msg)
      then s\<lparr>schedule_sending_acks := True\<rparr>
      else (case map_of (pending_reliable_messages s) (part_sequence_number msg) of
              None \<Rightarrow>
                s\<lparr>schedule_sending_acks := True,
                  pending_reliable_messages :=
                    map_emplace (part_sequence_number msg) (PendingMessage_of msg)
                      (pending_reliable_messages s)\<rparr>
            | Some pm \<Rightarrow>
                s\<lparr>schedule_sending_acks := True,
                  pending_reliable_messages :=
                    map_modify (part_sequence_number msg)
                      (update_payload (part_chunk_start msg) (part_payload msg))
                      (pending_reliable_messages s)\<rparr>))"
proof -
  have eq: "\<And>l. (part_sequence_number msg = l + 1) = (l = part_sequence_number msg - 1)"
    by auto
  show ?thesis
    using assms
    by (auto simp: handle_reliable_message_def Let_def reliable_last_def uh_none
          replay_pending_messages_no_callback part_get_complete_message_def eq
          split: option.splits)
qed

lemma deaf_eval:
  "deaf = (SocketImpl_new [5])\<lparr>sync := Some \<lparr>last_used_reliable_sn = 5, last_used_unreliable_sn = 5\<rparr>,
      schedule_sending_acks := True, received_message_ids_by_peer := []\<rparr>"
  by (simp add: deaf_def example_externals_def sync5_def SocketImpl_new_def
        handle_sync_message_def Let_def)

lemma deaf_fields:
  "on_receive_reliable deaf = None \<and> reliable_last deaf = Some 5 \<and> trace deaf = []
   \<and> pending_reliable_messages deaf = [] \<and> received_message_ids deaf = [5]
   \<and> \<not> was_destroyed deaf \<and> sync deaf = Some \<lparr>last_used_reliable_sn = 5, last_used_unreliable_sn = 5\<rparr>"
  by (simp add: deaf_eval SocketImpl_new_def reliable_last_def)

lemma stalled_eval:
  "stalled = deaf\<lparr>pending_reliable_messages := [(6, pending6)]\<rparr>"
proof -
  have a: "handle_reliable_message example_externals frag6a deaf =
      deaf\<lparr>pending_reliable_messages := [(6, \<lparr>pm_type = MessageType_reliable, pm_sequence_number = 6, pm_size = 2,
               pm_payload = [1, 0], pm_coverage = [True, False]\<rparr>)]\<rparr>"
    using deaf_fields
    by (simp add: handle_reliable_message_no_callback)
       (simp add: deaf_eval SocketImpl_new_def example_externals_def frag6a_def part_is_complete_def
          PendingMessage_of_def update_payload_def copy_into_def eval_nat_numeral reliable_last_def)
  show ?thesis
    unfolding stalled_def a using deaf_fields
    by (simp add: handle_reliable_message_no_callback)
       (simp add: deaf_eval SocketImpl_new_def example_externals_def frag6b_def part_is_complete_def
          map_modify_def update_payload_def copy_into_def pending6_def reliable_last_def)
qed


lemma replay_pending_messages_due:
  assumes "due_entry s = Some kv" "pm_get_complete_message (snd kv) = Some m"
    and "on_receive_reliable s \<noteq> None"
  shows "\<exists>ds. delivered (trace (replay_pending_messages ops s)) = delivered (trace s) @ m # ds"
proof -
  from assms(1) obtain sy where sy: "sync s = Some sy"
    and f: "find (\<lambda>kv. pm_sequence_number (snd kv) = last_used_reliable_sn sy + 1)
              (pending_reliable_messages s) = Some kv"
    by (auto simp: due_entry_def split: option.splits)
  show ?thesis
    unfolding replay_pending_messages_def
    by (rule replay_loop_due [OF sy f assms(2) assms(3)])
qed

text \<open>
  C8, as the code has it. With no reliable callback registered,
  \<open>handle_reliable_message\<close> hands nothing over, emits nothing, and leaves
  \<open>last_used_reliable_sn\<close> and the local ack set as they are, and a replay changes
  nothing, so a message that is complete in the pending map stays there. A complete
  part with the number \<open>last_used_reliable_sn + 1\<close> is not stored: the endpoint only
  sets \<open>schedule_sending_acks\<close>. Any other part that \<open>can_add\<close> accepts is stored in
  the map or merged into its entry. Once a callback is registered, a replay hands over
  the entry that is due if it is complete.
\<close>

theorem no_callback_no_delivery:
  "on_receive_reliable s = None \<longrightarrow>
     trace (handle_reliable_message ops msg s) = trace s
     \<and> sync (handle_reliable_message ops msg s) = sync s
     \<and> received_message_ids (handle_reliable_message ops msg s) = received_message_ids s
     \<and> replay_pending_messages ops s = s
     \<and> (reliable_last s = Some l \<and> part_sequence_number msg = l + 1 \<and> part_is_complete msg
        \<longrightarrow> handle_reliable_message ops msg s = s\<lparr>schedule_sending_acks := True\<rparr>)
     \<and> (reliable_last s = Some l
          \<and> can_add ops (received_message_ids s) (part_sequence_number msg)
          \<and> \<not> (part_sequence_number msg = l + 1 \<and> part_is_complete msg)
        \<longrightarrow> handle_reliable_message ops msg s =
             (case map_of (pending_reliable_messages s) (part_sequence_number msg) of
                None \<Rightarrow>
                  s\<lparr>schedule_sending_acks := True,
                    pending_reliable_messages :=
                      map_emplace (part_sequence_number msg) (PendingMessage_of msg)
                        (pending_reliable_messages s)\<rparr>
              | Some pm \<Rightarrow>
                  s\<lparr>schedule_sending_acks := True,
                    pending_reliable_messages :=
                      map_modify (part_sequence_number msg)
                        (update_payload (part_chunk_start msg) (part_payload msg))
                        (pending_reliable_messages s)\<rparr>))
     \<and> (due_entry s = Some kv \<and> pm_get_complete_message (snd kv) = Some m
        \<longrightarrow> (\<exists>ds. delivered (trace (replay_pending_messages ops (receive_reliable f s))) =
                  delivered (trace s) @ m # ds))"
proof (intro impI)
  assume nc: "on_receive_reliable s = None"
  note h = handle_reliable_message_no_callback [OF nc, of ops msg]
  have eq: "\<And>l. (part_sequence_number msg = l + 1) = (l = part_sequence_number msg - 1)"
    by auto
  have frame: "trace (handle_reliable_message ops msg s) = trace s
     \<and> sync (handle_reliable_message ops msg s) = sync s
     \<and> received_message_ids (handle_reliable_message ops msg s) = received_message_ids s"
    unfolding h by (simp split: option.splits)
  have dropped: "reliable_last s = Some l \<and> part_sequence_number msg = l + 1 \<and> part_is_complete msg
        \<longrightarrow> handle_reliable_message ops msg s = s\<lparr>schedule_sending_acks := True\<rparr>"
    unfolding h by (auto simp: eq)
  have stored: "reliable_last s = Some l
          \<and> can_add ops (received_message_ids s) (part_sequence_number msg)
          \<and> \<not> (part_sequence_number msg = l + 1 \<and> part_is_complete msg)
        \<longrightarrow> handle_reliable_message ops msg s =
             (case map_of (pending_reliable_messages s) (part_sequence_number msg) of
                None \<Rightarrow>
                  s\<lparr>schedule_sending_acks := True,
                    pending_reliable_messages :=
                      map_emplace (part_sequence_number msg) (PendingMessage_of msg)
                        (pending_reliable_messages s)\<rparr>
              | Some pm \<Rightarrow>
                  s\<lparr>schedule_sending_acks := True,
                    pending_reliable_messages :=
                      map_modify (part_sequence_number msg)
                        (update_payload (part_chunk_start msg) (part_payload msg))
                        (pending_reliable_messages s)\<rparr>)"
    unfolding h by (auto simp: eq)
  have later: "due_entry s = Some kv \<and> pm_get_complete_message (snd kv) = Some m
        \<longrightarrow> (\<exists>ds. delivered (trace (replay_pending_messages ops (receive_reliable f s))) =
                  delivered (trace s) @ m # ds)"
  proof (intro impI, elim conjE)
    assume "due_entry s = Some kv" and c: "pm_get_complete_message (snd kv) = Some m"
    then have d: "due_entry (receive_reliable f s) = Some kv"
      by (simp add: due_entry_def receive_reliable_def split: option.splits)
    have "\<exists>ds. delivered (trace (replay_pending_messages ops (receive_reliable f s))) =
                  delivered (trace (receive_reliable f s)) @ m # ds"
      by (rule replay_pending_messages_due [OF d c]) (simp add: receive_reliable_def)
    then show "\<exists>ds. delivered (trace (replay_pending_messages ops (receive_reliable f s))) =
                  delivered (trace s) @ m # ds"
      by (simp add: receive_reliable_def)
  qed
  show "trace (handle_reliable_message ops msg s) = trace s
     \<and> sync (handle_reliable_message ops msg s) = sync s
     \<and> received_message_ids (handle_reliable_message ops msg s) = received_message_ids s
     \<and> replay_pending_messages ops s = s
     \<and> (reliable_last s = Some l \<and> part_sequence_number msg = l + 1 \<and> part_is_complete msg
        \<longrightarrow> handle_reliable_message ops msg s = s\<lparr>schedule_sending_acks := True\<rparr>)
     \<and> (reliable_last s = Some l
          \<and> can_add ops (received_message_ids s) (part_sequence_number msg)
          \<and> \<not> (part_sequence_number msg = l + 1 \<and> part_is_complete msg)
        \<longrightarrow> handle_reliable_message ops msg s =
             (case map_of (pending_reliable_messages s) (part_sequence_number msg) of
                None \<Rightarrow>
                  s\<lparr>schedule_sending_acks := True,
                    pending_reliable_messages :=
                      map_emplace (part_sequence_number msg) (PendingMessage_of msg)
                        (pending_reliable_messages s)\<rparr>
              | Some pm \<Rightarrow>
                  s\<lparr>schedule_sending_acks := True,
                    pending_reliable_messages :=
                      map_modify (part_sequence_number msg)
                        (update_payload (part_chunk_start msg) (part_payload msg))
                        (pending_reliable_messages s)\<rparr>))
     \<and> (due_entry s = Some kv \<and> pm_get_complete_message (snd kv) = Some m
        \<longrightarrow> (\<exists>ds. delivered (trace (replay_pending_messages ops (receive_reliable f s))) =
                  delivered (trace s) @ m # ds))"
    using frame replay_pending_messages_no_callback [OF nc, of ops] dropped stored later
    by blast
qed

lemma part6_fields:
  "part_sequence_number part6 = 6 \<and> part_is_complete part6
   \<and> part_get_complete_message part6 = Some full6"
  by (simp add: part6_def full6_def part_get_complete_message_def part_is_complete_def)

theorem complete_part_dropped_counterexample:
  "on_receive_reliable deaf = None \<and> reliable_last deaf = Some 5
   \<and> part_sequence_number part6 = 5 + 1 \<and> part_is_complete part6
   \<and> can_add example_externals (received_message_ids deaf) (part_sequence_number part6)
   \<and> pending_reliable_messages (handle_reliable_message example_externals part6 deaf) = []
   \<and> map_of (pending_reliable_messages (handle_reliable_message example_externals part6 deaf))
        (part_sequence_number part6) = None"
proof -
  have "handle_reliable_message example_externals part6 deaf = deaf\<lparr>schedule_sending_acks := True\<rparr>"
    using deaf_fields part6_fields by (simp add: handle_reliable_message_no_callback)
  then show ?thesis
    using deaf_fields part6_fields by (simp add: example_externals_def)
qed

theorem no_callback_no_delivery_witness:
  "on_receive_reliable deaf = None \<and> reliable_last deaf = Some 5
   \<and> part_sequence_number part6 = 5 + 1 \<and> part_is_complete part6
   \<and> handle_reliable_message example_externals part6 deaf = deaf\<lparr>schedule_sending_acks := True\<rparr>
   \<and> can_add example_externals (received_message_ids deaf) (part_sequence_number frag6a)
   \<and> \<not> part_is_complete frag6a
   \<and> handle_reliable_message example_externals frag6a deaf =
       deaf\<lparr>schedule_sending_acks := True,
            pending_reliable_messages := [(6, PendingMessage_of frag6a)]\<rparr>
   \<and> on_receive_reliable stalled = None
   \<and> replay_pending_messages example_externals stalled = stalled
   \<and> due_entry stalled = Some (6, pending6)
   \<and> pm_get_complete_message pending6 = Some full6'
   \<and> (\<exists>ds. delivered (trace (replay_pending_messages example_externals
                                (receive_reliable rearm stalled))) = full6' # ds)"
proof -
  note t1 = no_callback_no_delivery [where s = deaf and ops = example_externals and msg = part6
      and l = 5]
  note t2 = no_callback_no_delivery [where s = deaf and ops = example_externals and msg = frag6a
      and l = 5]
  note t3 = no_callback_no_delivery [where s = stalled and ops = example_externals
      and kv = "(6, pending6)" and m = full6' and f = rearm]
  have st: "on_receive_reliable stalled = None" "due_entry stalled = Some (6, pending6)"
    "trace stalled = []"
    using deaf_fields by (simp_all add: stalled_eval due_entry_def pending6_def)
  have c6: "pm_get_complete_message pending6 = Some full6'"
    by (simp add: pm_get_complete_message_def pm_is_complete_def pending6_def full6'_def)
  have fa: "can_add example_externals (received_message_ids deaf) (part_sequence_number frag6a)"
    "\<not> part_is_complete frag6a" "part_sequence_number frag6a = 6"
    using deaf_fields by (simp_all add: example_externals_def frag6a_def part_is_complete_def)
  from t1 deaf_fields part6_fields
  have a: "handle_reliable_message example_externals part6 deaf = deaf\<lparr>schedule_sending_acks := True\<rparr>"
    by simp
  from t2 deaf_fields fa
  have b: "handle_reliable_message example_externals frag6a deaf =
       deaf\<lparr>schedule_sending_acks := True,
            pending_reliable_messages := [(6, PendingMessage_of frag6a)]\<rparr>"
    by simp
  from t3 st(1) have c: "replay_pending_messages example_externals stalled = stalled" by blast
  from t3 st c6 have d: "\<exists>ds. delivered (trace (replay_pending_messages example_externals
                                (receive_reliable rearm stalled))) = full6' # ds"
    by simp
  show ?thesis using deaf_fields part6_fields fa a b st c c6 d by (intro conjI) simp_all
qed






subsection \<open>The source of a datagram\<close>

text \<open>
  C10. On an endpoint whose remote endpoint has the unspecified address, a receive
  completion without error decodes and handles the datagram whatever its source is: the
  ack set of a datagram from any source becomes the peer-acked set. When the remote
  address is specified, the datagram is decoded and handled if its source is the remote
  endpoint, and otherwise dropped: the receive is started again, nothing is decoded and
  the peer-acked set stays as it is.
\<close>

theorem source_filter:
  "(\<not> was_destroyed s \<and> is_unspecified (ep_address (remote_endpoint s))
    \<longrightarrow> (\<forall>src. on_receive ops None sz (s\<lparr>rx_endpoint := src\<rparr>) =
               decode_and_handle ops (s\<lparr>rx_endpoint := src, recv_timeout_alarm := None\<rparr>)))
   \<and> (\<not> was_destroyed s \<and> \<not> is_unspecified (ep_address (remote_endpoint s))
        \<and> rx_endpoint s = remote_endpoint s
      \<longrightarrow> on_receive ops None sz s = decode_and_handle ops (s\<lparr>recv_timeout_alarm := None\<rparr>))
   \<and> (\<not> was_destroyed s \<and> \<not> is_unspecified (ep_address (remote_endpoint s))
        \<and> rx_endpoint s \<noteq> remote_endpoint s
      \<longrightarrow> on_receive ops None sz s = start_receiving (s\<lparr>recv_timeout_alarm := None\<rparr>)
          \<and> trace (on_receive ops None sz s) = trace s @ [Async_receive_from]
          \<and> received_message_ids_by_peer (on_receive ops None sz s) =
              received_message_ids_by_peer s)
   \<and> (\<not> was_destroyed s \<and> is_unspecified (ep_address (remote_endpoint s))
        \<and> get_AckSet ops (rx_buffer s) = Some (a, bs) \<and> get_uint16 ops bs = Some (0, bs')
      \<longrightarrow> (\<forall>src. received_message_ids_by_peer (on_receive ops None sz (s\<lparr>rx_endpoint := src\<rparr>))
                  = a))"
proof -
  have dropped: "\<not> was_destroyed s \<and> \<not> is_unspecified (ep_address (remote_endpoint s))
        \<and> rx_endpoint s \<noteq> remote_endpoint s
      \<longrightarrow> on_receive ops None sz s = start_receiving (s\<lparr>recv_timeout_alarm := None\<rparr>)
          \<and> trace (on_receive ops None sz s) = trace s @ [Async_receive_from]
          \<and> received_message_ids_by_peer (on_receive ops None sz s) =
              received_message_ids_by_peer s"
    by (simp add: on_receive_def Let_def start_receiving_def emit_def)
  have taken: "\<not> was_destroyed s \<and> is_unspecified (ep_address (remote_endpoint s))
        \<and> get_AckSet ops (rx_buffer s) = Some (a, bs) \<and> get_uint16 ops bs = Some (0, bs')
      \<longrightarrow> (\<forall>src. received_message_ids_by_peer (on_receive ops None sz (s\<lparr>rx_endpoint := src\<rparr>))
                  = a)"
    by (simp add: on_receive_def decode_and_handle_def Let_def start_receiving_def emit_def
          handle_acks_def)
  have any: "\<not> was_destroyed s \<and> is_unspecified (ep_address (remote_endpoint s))
    \<longrightarrow> (\<forall>src. on_receive ops None sz (s\<lparr>rx_endpoint := src\<rparr>) =
               decode_and_handle ops (s\<lparr>rx_endpoint := src, recv_timeout_alarm := None\<rparr>))"
    by (simp add: on_receive_def Let_def)
  have same: "\<not> was_destroyed s \<and> \<not> is_unspecified (ep_address (remote_endpoint s))
        \<and> rx_endpoint s = remote_endpoint s
      \<longrightarrow> on_receive ops None sz s = decode_and_handle ops (s\<lparr>recv_timeout_alarm := None\<rparr>)"
    by (simp add: on_receive_def Let_def)
  show ?thesis using any same dropped taken by blast
qed

lemma decode_empty_packet:
  "rx_buffer s = empty_packet \<Longrightarrow>
   decode_and_handle example_externals s =
     start_receiving (s\<lparr>received_message_ids_by_peer := []\<rparr>)"
  by (simp add: decode_and_handle_def example_externals_def empty_packet_def handle_acks_def)

theorem source_filter_witness:
  "\<not> was_destroyed unconnected \<and> is_unspecified (ep_address (remote_endpoint unconnected))
   \<and> on_receive example_externals None 11 (unconnected\<lparr>rx_endpoint := peer2\<rparr>) =
       start_receiving (unconnected\<lparr>rx_endpoint := peer2, recv_timeout_alarm := None,
                                    received_message_ids_by_peer := []\<rparr>)
   \<and> \<not> is_unspecified (ep_address (remote_endpoint (unconnected\<lparr>remote_endpoint := peer1\<rparr>)))
   \<and> rx_endpoint (unconnected\<lparr>remote_endpoint := peer1\<rparr>) = peer1
   \<and> on_receive example_externals None 11 (unconnected\<lparr>remote_endpoint := peer1\<rparr>) =
       start_receiving (unconnected\<lparr>remote_endpoint := peer1, recv_timeout_alarm := None,
                                    received_message_ids_by_peer := []\<rparr>)
   \<and> rx_endpoint (unconnected\<lparr>remote_endpoint := peer2\<rparr>) \<noteq> peer2
   \<and> on_receive example_externals None 11 (unconnected\<lparr>remote_endpoint := peer2\<rparr>) =
       start_receiving (unconnected\<lparr>remote_endpoint := peer2, recv_timeout_alarm := None\<rparr>)
   \<and> get_AckSet example_externals (rx_buffer unconnected) = Some ([], [0, 0])
   \<and> get_uint16 example_externals [0, 0] = Some (0, [])
   \<and> received_message_ids_by_peer
        (on_receive example_externals None 11 (unconnected\<lparr>rx_endpoint := peer2\<rparr>)) = []"
proof -
  note t1 = source_filter [where s = unconnected and ops = example_externals and sz = 11
      and a = "[]" and bs = "[0, 0]" and bs' = "[]"]
  note t2 = source_filter [where s = "unconnected\<lparr>remote_endpoint := peer1\<rparr>"
      and ops = example_externals and sz = 11]
  note t3 = source_filter [where s = "unconnected\<lparr>remote_endpoint := peer2\<rparr>"
      and ops = example_externals and sz = 11]
  have u: "\<not> was_destroyed unconnected" "is_unspecified (ep_address (remote_endpoint unconnected))"
    "rx_endpoint unconnected = peer1" "rx_buffer unconnected = empty_packet"
    by (simp_all add: unconnected_def SocketImpl_new_def)
  have p: "\<not> is_unspecified (ep_address peer1)" "\<not> is_unspecified (ep_address peer2)"
    "peer1 \<noteq> peer2"
    by (simp_all add: peer1_def peer2_def)
  from t1 u have a: "on_receive example_externals None 11 (unconnected\<lparr>rx_endpoint := peer2\<rparr>) =
       decode_and_handle example_externals
         (unconnected\<lparr>rx_endpoint := peer2, recv_timeout_alarm := None\<rparr>)"
    by blast
  from t2 u p have b: "on_receive example_externals None 11 (unconnected\<lparr>remote_endpoint := peer1\<rparr>) =
       decode_and_handle example_externals
         (unconnected\<lparr>remote_endpoint := peer1, recv_timeout_alarm := None\<rparr>)"
    by simp
  from t3 u p have c: "on_receive example_externals None 11 (unconnected\<lparr>remote_endpoint := peer2\<rparr>) =
       start_receiving (unconnected\<lparr>remote_endpoint := peer2, recv_timeout_alarm := None\<rparr>)"
    by simp
  have g: "get_AckSet example_externals (rx_buffer unconnected) = Some ([], [0, 0])"
    "get_uint16 example_externals [0, 0] = Some (0, [])"
    by (simp_all add: u example_externals_def empty_packet_def)
  from t1 u g have d: "received_message_ids_by_peer
        (on_receive example_externals None 11 (unconnected\<lparr>rx_endpoint := peer2\<rparr>)) = []"
    by blast
  show ?thesis
    unfolding a b c using u p g d [unfolded a] by (simp add: decode_empty_packet)
qed

subsection \<open>Errors, close and cancellation\<close>



























subsection \<open>Nothing to send\<close>




lemma example_acks_encoder:
  "acks_encoder example_externals s =
     \<lparr>enc_written = replicate 9 0, enc_capacity = 1452, enc_error = False\<rparr>"
  by (simp add: acks_encoder_def example_externals_def encoder_over_def put_def
        remaining_size_def written_def packet_size_def)




subsection \<open>The size of packets\<close>

lemma put_ok: "enc_ok e \<Longrightarrow> enc_ok (put bs e) \<and> enc_capacity (put bs e) = enc_capacity e"
  by (auto simp: enc_ok_def put_def written_def remaining_size_def)

lemma put_uint16_at_ok:
  "enc_ok e \<Longrightarrow> enc_ok (put_uint16_at pos err n e)
     \<and> enc_capacity (put_uint16_at pos err n e) = enc_capacity e"
  by (auto simp: enc_ok_def put_uint16_at_def written_def)

lemma encode_header_and_payload_ok:
  "enc_ok e \<Longrightarrow> enc_ok (snd (encode_header_and_payload e m offset))
     \<and> enc_capacity (snd (encode_header_and_payload e m offset)) = enc_capacity e"
  by (simp add: encode_header_and_payload_def Let_def put_ok)

lemma encode_ok:
  "enc_ok e \<Longrightarrow> enc_ok (fst (encode e m)) \<and> enc_capacity (fst (encode e m)) = enc_capacity e"
  by (simp add: encode_def Let_def encode_header_and_payload_ok)

lemma try_encode_ok:
  "enc_ok e \<Longrightarrow> enc_ok (fst (snd (try_encode e m)))
     \<and> enc_capacity (fst (snd (try_encode e m))) = enc_capacity e"
  by (simp add: try_encode_def Let_def encode_ok)

lemma cycle_loop_ok:
  "enc_ok e \<Longrightarrow> enc_ok (fst (snd (cycle_loop ops acks todo kept e count)))
     \<and> enc_capacity (fst (snd (cycle_loop ops acks todo kept e count))) = enc_capacity e"
proof (induction todo arbitrary: kept e count)
  case Nil
  then show ?case by simp
next
  case (Cons mi rest)
  note te = try_encode_ok [OF Cons.prems, of mi]
  show ?case
    using Cons.prems Cons.IH [OF Cons.prems] Cons.IH [of "fst (snd (try_encode e mi))"] te
    by (simp add: Let_def)
qed

lemma encode_payload_ok:
  "enc_ok e \<Longrightarrow> enc_ok (fst (snd (encode_payload ops e s)))
     \<and> enc_capacity (fst (snd (encode_payload ops e s))) = enc_capacity e"
  by (simp add: encode_payload_def Let_def put_uint16_at_ok cycle_loop_ok put_ok)

lemma encoder_over_ok: "enc_ok (encoder_over n) \<and> enc_capacity (encoder_over n) = n"
  by (simp add: enc_ok_def encoder_over_def written_def)

lemma acks_encoder_ok:
  "enc_ok (acks_encoder ops s) \<and> enc_capacity (acks_encoder ops s) = packet_size"
  by (simp add: acks_encoder_def put_ok encoder_over_ok)

lemma construct_packet_length:
  "length (snd (construct_packet_with_one_message ops m s)) \<le> packet_size"
proof -
  let ?e2 = "put (uint16_bytes 1) (put (encode_AckSet ops (received_message_ids s)) (encoder_over packet_size))"
  have "enc_ok ?e2 \<and> enc_capacity ?e2 = packet_size"
    by (simp add: put_ok encoder_over_ok)
  then have "enc_ok (fst (snd (try_encode ?e2 m)))
      \<and> enc_capacity (fst (snd (try_encode ?e2 m))) = packet_size"
    using try_encode_ok [of ?e2 m] by simp
  then show ?thesis
    by (simp add: construct_packet_with_one_message_def Let_def enc_ok_def written_def)
qed

lemma packets_ok_emit:
  "packets_ok (emit ev s) = (packets_ok s \<and> packet_within packet_size ev)"
  by (simp add: packets_ok_def emit_def)

lemma packets_ok_same: "trace s' = trace s \<Longrightarrow> packets_ok s' = packets_ok s"
  by (simp add: packets_ok_def)

lemma close_packets_ok: "packets_ok s \<Longrightarrow> packets_ok (close ops s)"
  using construct_packet_length [of ops _ "s\<lparr>timer := None\<rparr>"]
  by (simp add: close_def sync_send_close_message_def Let_def packets_ok_def emit_def)

lemma perform_packets_ok: "packets_ok s \<Longrightarrow> packets_ok (perform ops a s)"
proof (cases a)
  case Call_close
  assume "packets_ok s"
  then show ?thesis using Call_close by (simp add: close_packets_ok)
qed (simp_all add: receive_reliable_def receive_unreliable_def flush_def destroy_def
       packets_ok_def)

lemma run_actions_packets_ok: "packets_ok s \<Longrightarrow> packets_ok (run_actions ops as s)"
  by (induction as arbitrary: s) (simp_all add: perform_packets_ok)

lemma handle_error_packets_ok: "packets_ok s \<Longrightarrow> packets_ok (handle_error ops e s)"
proof -
  assume "packets_ok s"
  then have c: "packets_ok (close ops s)" by (rule close_packets_ok)
  let ?s2 = "(close ops s)\<lparr>on_receive_unreliable := None, on_receive_reliable := None\<rparr>"
  have s2: "packets_ok ?s2" using c by (simp add: packets_ok_def)
  let ?s3 = "case on_receive_unreliable (close ops s) of None \<Rightarrow> ?s2
             | Some f \<Rightarrow> run_actions ops (OnReceive_body f (Some e) []) (emit (Unreliable_err e) ?s2)"
  have s3: "packets_ok ?s3"
    using s2 by (auto split: option.splits intro!: run_actions_packets_ok simp: packets_ok_emit)
  show ?thesis
    unfolding handle_error_def Let_def
    using s3 by (auto split: option.splits intro!: run_actions_packets_ok simp: packets_ok_emit)
qed

lemma start_receiving_packets_ok: "packets_ok s \<Longrightarrow> packets_ok (start_receiving s)"
  by (simp add: start_receiving_def packets_ok_def emit_def)

lemma start_sending_packets_ok:
  assumes "packets_ok s"
  shows "packets_ok (start_sending ops s)"
proof -
  let ?e = "acks_encoder ops s"
  let ?r = "encode_payload ops ?e s"
  have e': "length (enc_written (fst (snd ?r))) \<le> packet_size"
    using encode_payload_ok [of ?e ops s] acks_encoder_ok [of ops s]
    by (simp add: enc_ok_def written_def)
  have s1: "packets_ok (snd (snd ?r))"
    using assms by (simp add: packets_ok_def encode_payload_frame)
  have fl: "\<And>f. packets_ok (run_actions ops (OnFlush_body f)
                (emit Flushed ((snd (snd ?r))\<lparr>on_flush := None\<rparr>)))"
    using s1 by (intro run_actions_packets_ok) (simp add: packets_ok_def emit_def)
  show ?thesis
    unfolding start_sending_def Let_def acks_encoder_def [symmetric]
    using assms s1 e' fl
    by (auto simp: packets_ok_def emit_def split: option.splits)
qed

lemma uh_packets_ok:
  "packets_ok s \<Longrightarrow> packets_ok (snd (user_handle_reliable_msg ops m s))"
proof -
  assume a: "packets_ok s"
  have "\<And>f. packets_ok (run_actions ops (OnReceive_body f None (full_payload m))
                      (emit (Reliable_msg m) (s\<lparr>on_receive_reliable := None\<rparr>)))"
    using a by (intro run_actions_packets_ok) (simp add: packets_ok_def emit_def)
  then show ?thesis
    using a by (auto simp: user_handle_reliable_msg_def Let_def packets_ok_def
          split: option.splits)
qed

lemma replay_loop_packets_ok:
  "packets_ok s \<Longrightarrow> packets_ok (replay_loop ops pms s)"
proof (induction pms arbitrary: s)
  case Nil
  then show ?case by simp
next
  case (Cons kv rest)
  obtain k pm where kv: "kv = (k, pm)" by (cases kv)
  have u: "\<And>m. packets_ok (snd (user_handle_reliable_msg ops m s))"
    using Cons.prems by (rule uh_packets_ok)
  have "\<And>m. packets_ok (replay_loop ops rest
            ((snd (user_handle_reliable_msg ops m s))\<lparr>pending_reliable_messages :=
                map_erase k (pending_reliable_messages (snd (user_handle_reliable_msg ops m s)))\<rparr>))"
    using u by (intro Cons.IH) (simp add: packets_ok_def)
  then show ?case
    using kv Cons.prems u Cons.IH [OF Cons.prems]
    by (auto simp: Let_def split: option.splits)
qed

lemma handle_reliable_message_packets_ok:
  assumes "packets_ok s"
  shows "packets_ok (handle_reliable_message ops msg s)"
proof -
  let ?s = "s\<lparr>schedule_sending_acks := True\<rparr>"
  have a: "packets_ok ?s" using assms by (simp add: packets_ok_def)
  have u: "\<And>m. packets_ok (snd (user_handle_reliable_msg ops m ?s))"
    using a by (rule uh_packets_ok)
  have r: "\<And>m. packets_ok (replay_pending_messages ops (snd (user_handle_reliable_msg ops m ?s)))"
    unfolding replay_pending_messages_def using u by (rule replay_loop_packets_ok)
  have p: "\<And>v. packets_ok (replay_pending_messages ops (?s\<lparr>pending_reliable_messages := v\<rparr>))"
    unfolding replay_pending_messages_def
    using a by (intro replay_loop_packets_ok) (simp add: packets_ok_def)
  have q: "\<And>v. packets_ok (?s\<lparr>pending_reliable_messages := v\<rparr>)"
    using a by (simp add: packets_ok_def)
  show ?thesis
    unfolding handle_reliable_message_def Let_def
    using a u r p q by (auto split: option.splits)
qed

lemma deliver_unreliable_packets_ok:
  "packets_ok s \<Longrightarrow> packets_ok (deliver_unreliable ops sn payload s)"
proof -
  assume a: "packets_ok s"
  have "\<And>f. packets_ok (run_actions ops (OnReceive_body f None payload)
                      (emit (Unreliable_msg sn payload) (s\<lparr>on_receive_unreliable := None\<rparr>)))"
    using a by (intro run_actions_packets_ok) (simp add: packets_ok_def emit_def)
  then show ?thesis
    using a by (auto simp: deliver_unreliable_def Let_def packets_ok_def split: option.splits)
qed

lemma handle_unreliable_message_packets_ok:
  assumes "packets_ok s"
  shows "packets_ok (handle_unreliable_message ops msg s)"
proof -
  have q: "\<And>v. packets_ok (s\<lparr>pending_unreliable_message := v\<rparr>)"
    using assms by (simp add: packets_ok_def)
  show ?thesis
    unfolding handle_unreliable_message_def Let_def
    using assms q by (auto split: option.splits intro!: deliver_unreliable_packets_ok)
qed

lemma handle_message_packets_ok:
  assumes "packets_ok s"
  shows "packets_ok (handle_message ops msg s)"
proof -
  have c: "packets_ok (handle_close_message ops s)"
    unfolding handle_close_message_def
    using assms by (intro handle_error_packets_ok) (simp add: packets_ok_def)
  have y: "packets_ok (handle_sync_message ops msg s)"
    using assms by (simp add: packets_ok_def handle_sync_message_frame)
  note q = start_sending_packets_ok handle_error_packets_ok handle_unreliable_message_packets_ok
    handle_reliable_message_packets_ok
  show ?thesis
    using assms c y by (cases "part_type msg") (auto simp: handle_message_def Let_def intro!: q)
qed

lemma receive_loop_packets_ok:
  "packets_ok s \<Longrightarrow> packets_ok (receive_loop ops n bs s)"
proof (induction n arbitrary: bs s)
  case 0
  then show ?case by (simp add: start_receiving_packets_ok)
next
  case (Suc n)
  show ?case
    using Suc.prems Suc.IH handle_message_packets_ok [OF Suc.prems]
    by (auto simp: Let_def handle_error_packets_ok split: option.splits)
qed

lemma on_receive_packets_ok:
  assumes "packets_ok s"
  shows "packets_ok (on_receive ops error sz s)"
proof -
  let ?s = "s\<lparr>recv_timeout_alarm := None\<rparr>"
  have a: "packets_ok ?s" using assms by (simp add: packets_ok_def)
  have acks: "\<And>v. packets_ok (handle_acks v ?s)"
    using a by (simp add: handle_acks_def packets_ok_def)
  have d: "packets_ok (decode_and_handle ops ?s)"
    unfolding decode_and_handle_def Let_def
    using a acks
    by (auto split: option.splits
          intro!: handle_error_packets_ok receive_loop_packets_ok
          simp: packets_ok_emit)
  let ?s2 = "?s\<lparr>on_receive_unreliable := None, on_receive_reliable := None\<rparr>"
  have s2: "packets_ok ?s2" using a by (simp add: packets_ok_def)
  have s3: "\<And>e. packets_ok (case on_receive_unreliable ?s of None \<Rightarrow> ?s2
             | Some f \<Rightarrow> run_actions ops (OnReceive_body f (Some e) []) (emit (Unreliable_err e) ?s2))"
    using s2 by (auto split: option.splits intro!: run_actions_packets_ok simp: packets_ok_emit)
  have err: "\<And>e. packets_ok (on_receive ops (Some e) sz s)"
    unfolding on_receive_def Let_def
    using assms s3
    by (auto split: option.splits intro!: run_actions_packets_ok simp: packets_ok_emit)
  show ?thesis
  proof (cases error)
    case None
    then show ?thesis
      using assms a d by (simp add: on_receive_def Let_def start_receiving_packets_ok)
  next
    case (Some e)
    then show ?thesis using err by simp
  qed
qed

lemma try_encode_refuses:
  "fst (try_encode e m) = (header_size + min 1 (payload_size m) \<le> remaining_size e)"
  by (auto simp: try_encode_def Let_def)

lemma try_encode_refused: "\<not> fst (try_encode e m) \<Longrightarrow> try_encode e m = (False, e, m)"
  by (auto simp: try_encode_def Let_def split: if_splits)

lemma start_sending_sends:
  assumes "socket_is_open s" "send_state s = SendState_pending"
    and "\<not> enc_error (acks_encoder ops s)"
    and "0 < fst (encode_payload ops (acks_encoder ops s) s) \<or> schedule_sending_acks s"
    and "written (fst (snd (encode_payload ops (acks_encoder ops s) s))) \<noteq> 0"
  shows "trace (start_sending ops s) =
     trace s @ [Async_send_to (enc_written (fst (snd (encode_payload ops (acks_encoder ops s) s))))
                  (remote_endpoint s)]"
  using assms
  by (auto simp: start_sending_def acks_encoder_def Let_def encode_payload_frame emit_def)

text \<open>
  C5. No packet has more than \<open>packet_size\<close> = 1452 bytes. The endpoint as
  constructed has sent none, and \<open>start_sending\<close>, \<open>close\<close>, \<open>on_receive\<close>, the two send
  operations and the timer, send and alarm handlers keep every packet of the trace
  within that size; so is the vector that \<open>construct_packet_with_one_message\<close>
  returns. \<open>try_encode\<close> encodes exactly when the header and \<open>min(1, payload_size)\<close>
  bytes fit the encoder's remaining space, leaves the encoder and the message alone when
  it refuses, and never writes past the buffer. When \<open>start_sending\<close> sends, the bytes
  handed to \<open>async_send_to\<close> are the \<open>encoder.written()\<close> bytes of the encoder.
\<close>

theorem packets_within_packet_size:
  "packet_size = 1452
   \<and> packets_ok (SocketImpl_new acks)
   \<and> (packets_ok s
      \<longrightarrow> packets_ok (start_sending ops s) \<and> packets_ok (close ops s)
          \<and> packets_ok (on_receive ops error sz s)
          \<and> packets_ok (send_reliable ops d s) \<and> packets_ok (send_unreliable ops d s)
          \<and> packets_ok (on_timer ops error s) \<and> packets_ok (on_send ops error sz s)
          \<and> packets_ok (on_send_keepalive_alarm ops s)
          \<and> packets_ok (on_recv_timeout_alarm ops s))
   \<and> length (snd (construct_packet_with_one_message ops m s)) \<le> packet_size
   \<and> fst (try_encode e m) = (header_size + min 1 (payload_size m) \<le> remaining_size e)
   \<and> (\<not> fst (try_encode e m) \<longrightarrow> try_encode e m = (False, e, m))
   \<and> (enc_ok e \<longrightarrow> written (fst (snd (try_encode e m))) \<le> enc_capacity e)
   \<and> (socket_is_open s \<and> send_state s = SendState_pending
        \<and> \<not> enc_error (acks_encoder ops s)
        \<and> (0 < fst (encode_payload ops (acks_encoder ops s) s) \<or> schedule_sending_acks s)
        \<and> written (fst (snd (encode_payload ops (acks_encoder ops s) s))) \<noteq> 0
      \<longrightarrow> trace (start_sending ops s) =
            trace s @ [Async_send_to
                         (enc_written (fst (snd (encode_payload ops (acks_encoder ops s) s))))
                         (remote_endpoint s)]
          \<and> length (enc_written (fst (snd (encode_payload ops (acks_encoder ops s) s)))) =
              written (fst (snd (encode_payload ops (acks_encoder ops s) s)))
          \<and> written (fst (snd (encode_payload ops (acks_encoder ops s) s))) \<le> packet_size)"
proof -
  have init: "packets_ok (SocketImpl_new acks)"
    by (simp add: packets_ok_def SocketImpl_new_def)
  have inv: "packets_ok s
      \<longrightarrow> packets_ok (start_sending ops s) \<and> packets_ok (close ops s)
          \<and> packets_ok (on_receive ops error sz s)
          \<and> packets_ok (send_reliable ops d s) \<and> packets_ok (send_unreliable ops d s)
          \<and> packets_ok (on_timer ops error s) \<and> packets_ok (on_send ops error sz s)
          \<and> packets_ok (on_send_keepalive_alarm ops s)
          \<and> packets_ok (on_recv_timeout_alarm ops s)"
  proof
    assume a: "packets_ok s"
    have sr: "packets_ok (send_reliable ops d s)"
      unfolding send_reliable_def
      using a by (intro start_sending_packets_ok) (simp add: packets_ok_def add_message_def)
    have su: "packets_ok (send_unreliable ops d s)"
      unfolding send_unreliable_def
      using a by (intro start_sending_packets_ok) (simp add: packets_ok_def add_message_def)
    have ka: "packets_ok (on_send_keepalive_alarm ops s)"
      unfolding on_send_keepalive_alarm_def
      using a by (intro start_sending_packets_ok) (simp add: packets_ok_def add_message_def)
    have "packets_ok (s\<lparr>send_state := SendState_pending, timer := None\<rparr>)"
      using a by (simp add: packets_ok_def)
    then have ot: "packets_ok (on_timer ops error s)"
      using a start_sending_packets_ok [of "s\<lparr>send_state := SendState_pending, timer := None\<rparr>" ops]
      by (simp add: on_timer_def Let_def split: option.splits)
    have os: "packets_ok (on_send ops error sz s)"
      using a by (simp add: on_send_def Let_def packets_ok_def emit_def split: option.splits)
    show "packets_ok (start_sending ops s) \<and> packets_ok (close ops s)
          \<and> packets_ok (on_receive ops error sz s)
          \<and> packets_ok (send_reliable ops d s) \<and> packets_ok (send_unreliable ops d s)
          \<and> packets_ok (on_timer ops error s) \<and> packets_ok (on_send ops error sz s)
          \<and> packets_ok (on_send_keepalive_alarm ops s)
          \<and> packets_ok (on_recv_timeout_alarm ops s)"
      using a sr su ka ot os
      by (simp add: start_sending_packets_ok close_packets_ok on_receive_packets_ok
            on_recv_timeout_alarm_def handle_error_packets_ok)
  qed
  have te: "enc_ok e \<longrightarrow> written (fst (snd (try_encode e m))) \<le> enc_capacity e"
    using try_encode_ok [of e m] by (auto simp: enc_ok_def)
  have wr: "written (fst (snd (encode_payload ops (acks_encoder ops s) s))) \<le> packet_size"
    using encode_payload_ok [of "acks_encoder ops s" ops s] acks_encoder_ok [of ops s]
    by (simp add: enc_ok_def)
  have len: "length (enc_written (fst (snd (encode_payload ops (acks_encoder ops s) s)))) =
              written (fst (snd (encode_payload ops (acks_encoder ops s) s)))"
    by (simp add: written_def)
  show ?thesis
    using init inv construct_packet_length [of ops m s] try_encode_refuses [of e m]
      try_encode_refused [of e m] te start_sending_sends [of s ops] wr len
    by (simp add: packet_size_def)
qed

lemma sender_fields:
  "socket_is_open sender \<and> send_state sender = SendState_pending \<and> trace sender = []
   \<and> \<not> schedule_sending_acks sender \<and> received_message_ids_by_peer sender = []
   \<and> remote_endpoint sender = \<lparr>ep_address = address_v4 0, ep_port = 0\<rparr>
   \<and> transmit_queue sender =
       [\<lparr>resend_until_acked = True, out_type = MessageType_reliable, out_sequence_number = 0,
         out_payload = [1, 2, 3], bytes_already_sent = 0\<rparr>]"
  by (simp add: sender_def add_message_def SocketImpl_new_def)

lemma sender_try_encode:
  "try_encode \<lparr>enc_written = replicate 9 0 @ [0, 0], enc_capacity = 1452, enc_error = False\<rparr>
     \<lparr>resend_until_acked = True, out_type = MessageType_reliable, out_sequence_number = 0,
      out_payload = [1, 2, 3], bytes_already_sent = 0\<rparr> =
   (True,
    \<lparr>enc_written = replicate 9 0 @ [0, 0, 1, 1, 0, 0, 0, 0, 0, 3, 0, 0, 0, 3, 1, 2, 3],
     enc_capacity = 1452, enc_error = False\<rparr>,
    \<lparr>resend_until_acked = True, out_type = MessageType_reliable, out_sequence_number = 0,
     out_payload = [1, 2, 3], bytes_already_sent = 3\<rparr>)"
  by (simp add: try_encode_def encode_def encode_header_and_payload_def encode_header_def
        header_size_def payload_size_def remaining_size_def written_def put_def Let_def
        uint16_bytes_def uint32_bytes_def)

lemma sender_encode_payload:
  "encode_payload example_externals (acks_encoder example_externals sender) sender =
     (1, \<lparr>enc_written = sender_packet, enc_capacity = 1452, enc_error = False\<rparr>,
      sender\<lparr>transmit_queue :=
        [\<lparr>resend_until_acked = True, out_type = MessageType_reliable, out_sequence_number = 0,
          out_payload = [1, 2, 3], bytes_already_sent = 3\<rparr>]\<rparr>)"
proof -
  have p: "put (uint16_bytes 0) \<lparr>enc_written = replicate 9 0, enc_capacity = 1452, enc_error = False\<rparr>
      = \<lparr>enc_written = replicate 9 0 @ [0, 0], enc_capacity = 1452, enc_error = False\<rparr>"
    by (simp add: put_def remaining_size_def written_def uint16_bytes_def)
  show ?thesis
    by (simp add: encode_payload_def example_acks_encoder p sender_fields sender_try_encode
          Let_def payload_size_def written_def put_uint16_at_def)
       (simp add: example_externals_def sender_packet_def eval_nat_numeral)
qed

theorem packets_within_packet_size_witness:
  "packets_ok sender
   \<and> packets_ok (start_sending example_externals sender)
   \<and> packets_ok (close example_externals sender)
   \<and> socket_is_open sender \<and> send_state sender = SendState_pending
   \<and> \<not> enc_error (acks_encoder example_externals sender)
   \<and> 0 < fst (encode_payload example_externals (acks_encoder example_externals sender) sender)
   \<and> written (fst (snd (encode_payload example_externals
                            (acks_encoder example_externals sender) sender))) = 26
   \<and> trace (start_sending example_externals sender) =
       [Async_send_to sender_packet \<lparr>ep_address = address_v4 0, ep_port = 0\<rparr>]
   \<and> length sender_packet = 26
   \<and> enc_ok (encoder_over 12)
   \<and> \<not> fst (try_encode (encoder_over 12) (hd (transmit_queue sender)))
   \<and> try_encode (encoder_over 12) (hd (transmit_queue sender)) =
       (False, encoder_over 12, hd (transmit_queue sender))
   \<and> enc_ok (encoder_over 13)
   \<and> fst (try_encode (encoder_over 13) (hd (transmit_queue sender)))
   \<and> written (fst (snd (try_encode (encoder_over 13) (hd (transmit_queue sender))))) \<le> 13"
proof -
  note t = packets_within_packet_size [where s = sender and ops = example_externals
      and e = "encoder_over 12" and m = "hd (transmit_queue sender)" and acks = "[]"
      and error = None and sz = 0 and d = "[]"]
  note t' = packets_within_packet_size [where s = sender and ops = example_externals
      and e = "encoder_over 13" and m = "hd (transmit_queue sender)" and acks = "[]"
      and error = None and sz = 0 and d = "[]"]
  note f = sender_fields
  have ok: "packets_ok sender" using f by (simp add: packets_ok_def)
  have h0: "\<not> enc_error (acks_encoder example_externals sender)"
    by (simp add: example_acks_encoder)
  have h1: "0 < fst (encode_payload example_externals (acks_encoder example_externals sender) sender)"
    "written (fst (snd (encode_payload example_externals
                            (acks_encoder example_externals sender) sender))) = 26"
    "enc_written (fst (snd (encode_payload example_externals
                            (acks_encoder example_externals sender) sender))) = sender_packet"
    "length sender_packet = 26"
    by (simp_all add: sender_encode_payload written_def) (simp_all add: sender_packet_def)
  note h = h0 h1
  have e12: "enc_ok (encoder_over 12)" "enc_ok (encoder_over 13)"
    "enc_capacity (encoder_over 13) = 13"
    by (simp_all add: encoder_over_ok)
  have r12: "\<not> fst (try_encode (encoder_over 12) (hd (transmit_queue sender)))"
    "fst (try_encode (encoder_over 13) (hd (transmit_queue sender)))"
    unfolding try_encode_refuses
    by (simp_all add: f header_size_def payload_size_def remaining_size_def written_def
          encoder_over_def)
  from t ok have a: "packets_ok (start_sending example_externals sender)
    \<and> packets_ok (close example_externals sender)" by blast
  have hyp: "socket_is_open sender \<and> send_state sender = SendState_pending
        \<and> \<not> enc_error (acks_encoder example_externals sender)
        \<and> (0 < fst (encode_payload example_externals (acks_encoder example_externals sender) sender)
            \<or> schedule_sending_acks sender)
        \<and> written (fst (snd (encode_payload example_externals
                                 (acks_encoder example_externals sender) sender))) \<noteq> 0"
    using f h by simp
  from t hyp have b: "trace (start_sending example_externals sender) =
       trace sender @ [Async_send_to
           (enc_written (fst (snd (encode_payload example_externals
                            (acks_encoder example_externals sender) sender))))
           (remote_endpoint sender)]"
    by blast
  from t r12(1) have c: "try_encode (encoder_over 12) (hd (transmit_queue sender)) =
       (False, encoder_over 12, hd (transmit_queue sender))" by blast
  from t' e12 have d: "written (fst (snd (try_encode (encoder_over 13) (hd (transmit_queue sender)))))
      \<le> enc_capacity (encoder_over 13)" by blast
  show ?thesis
    using ok a f h e12 r12 b c d by (intro conjI) simp_all
qed

subsection \<open>Acknowledged messages and the transmit queue\<close>

lemma encode_same_message: "same_message m (snd (encode e m))"
  by (simp add: encode_def Let_def same_message_def)

lemma try_encode_same_message: "same_message m (snd (snd (try_encode e m)))"
  using encode_same_message [of m e]
  by (simp add: try_encode_def Let_def same_message_def)

lemma same_message_refl: "same_message m m"
  by (simp add: same_message_def)

lemma same_message_trans: "same_message a b \<Longrightarrow> same_message b c \<Longrightarrow> same_message a c"
  by (simp add: same_message_def)

lemma cycle_loop_retains:
  assumes "resend_until_acked m" "\<not> is_in ops acks (out_sequence_number m)"
  shows "\<exists>x \<in> set todo \<union> set kept. same_message m x \<Longrightarrow>
    \<exists>m' \<in> set (fst (snd (snd (cycle_loop ops acks todo kept e count)))). same_message m m'"
proof (induction todo arbitrary: kept e count)
  case Nil
  then show ?case by simp
next
  case (Cons mi rest)
  let ?r = "try_encode e mi"
  let ?m' = "snd (snd ?r)"
  have sm: "same_message mi ?m'" by (rule try_encode_same_message)
  from Cons.prems obtain x where x: "x \<in> set (mi # rest) \<union> set kept" "same_message m x"
    by blast
  show ?case
  proof (cases "x = mi")
    case True
    then have mm: "same_message m mi" using x by simp
    then have r: "resend_until_acked mi" "\<not> is_in ops acks (out_sequence_number mi)"
      using assms by (simp_all add: same_message_def)
    have mm': "same_message m ?m'" using mm sm by (rule same_message_trans)
    then have r': "resend_until_acked ?m'" using assms(1) by (simp add: same_message_def)
    have "\<exists>m'' \<in> set (fst (snd (snd (cycle_loop ops acks rest (kept @ [?m']) (fst (snd ?r))
              (count + 1))))). same_message m m''"
      using mm' by (intro Cons.IH) auto
    then show ?thesis
      using r r' mm mm' by (auto simp: Let_def)
  next
    case False
    then have xin: "x \<in> set rest \<union> set kept" using x by auto
    then have a: "\<And>k e c. \<exists>m'' \<in> set (fst (snd (snd (cycle_loop ops acks rest (kept @ k) e c)))).
        same_message m m''"
      using x(2) by (intro Cons.IH) auto
    have b: "\<And>e c. \<exists>m'' \<in> set (fst (snd (snd (cycle_loop ops acks rest kept e c)))).
        same_message m m''"
      using a [of "[]"] by simp
    have c: "\<And>y. \<exists>m'' \<in> set (rest @ kept @ [y]). same_message m m''"
      using xin x(2) by auto
    show ?thesis
      using a b c by (simp add: Let_def)
  qed
qed

lemma cycle_loop_complete_pass:
  "\<not> snd (snd (snd (cycle_loop ops acks todo kept e count))) \<Longrightarrow>
   \<forall>m \<in> set kept. \<not> acked ops acks m \<Longrightarrow>
   \<forall>m \<in> set (fst (snd (snd (cycle_loop ops acks todo kept e count)))). \<not> acked ops acks m"
proof (induction todo arbitrary: kept e count)
  case Nil
  then show ?case by simp
next
  case (Cons mi rest)
  let ?r = "try_encode e mi"
  let ?m' = "snd (snd ?r)"
  have sm: "same_message mi ?m'" by (rule try_encode_same_message)
  show ?case
  proof (cases "resend_until_acked mi \<and> is_in ops acks (out_sequence_number mi)")
    case True
    then show ?thesis using Cons by simp
  next
    case False
    then have na: "\<not> acked ops acks ?m'" using sm by (simp add: acked_def same_message_def)
    then have k: "\<forall>m \<in> set (kept @ [?m']). \<not> acked ops acks m" using Cons.prems(2) by simp
    have eq: "cycle_loop ops acks (mi # rest) kept e count =
        (if \<not> fst ?r then (count, e, rest @ kept @ [mi], True)
         else if bytes_already_sent ?m' \<noteq> payload_size ?m'
              then (count + 1, fst (snd ?r), rest @ kept @ [?m'], True)
         else if \<not> resend_until_acked ?m'
              then cycle_loop ops acks rest kept (fst (snd ?r)) (count + 1)
         else cycle_loop ops acks rest (kept @ [?m']) (fst (snd ?r)) (count + 1))"
      using False by (cases "resend_until_acked mi") (simp_all add: Let_def)
    show ?thesis
    proof (cases "\<not> fst ?r \<or> bytes_already_sent ?m' \<noteq> payload_size ?m'")
      case True
      then show ?thesis using Cons.prems(1) unfolding eq by auto
    next
      case go: False
      show ?thesis
      proof (cases "resend_until_acked ?m'")
        case False
        then have e2: "cycle_loop ops acks (mi # rest) kept e count =
            cycle_loop ops acks rest kept (fst (snd ?r)) (count + 1)"
          using go unfolding eq by simp
        show ?thesis
          unfolding e2 using Cons.prems unfolding e2 by (intro Cons.IH)
      next
        case True
        then have e2: "cycle_loop ops acks (mi # rest) kept e count =
            cycle_loop ops acks rest (kept @ [?m']) (fst (snd ?r)) (count + 1)"
          using go unfolding eq by simp
        show ?thesis
          unfolding e2 using Cons.prems(1) k unfolding e2 by (intro Cons.IH)
      qed
    qed
  qed
qed

lemma backlog_fields:
  "transmit_queue backlog = [big_message, small_message]
   \<and> received_message_ids_by_peer backlog = [1] \<and> socket_is_open backlog
   \<and> send_state backlog = SendState_pending \<and> \<not> schedule_sending_acks backlog
   \<and> trace backlog = [] \<and> remote_endpoint backlog = \<lparr>ep_address = address_v4 0, ep_port = 0\<rparr>"
  by (simp add: backlog_def handle_acks_def add_message_def SocketImpl_new_def big_message_def
        small_message_def)

lemma big_try_encode:
  "fst (try_encode \<lparr>enc_written = replicate 9 0 @ [0, 0], enc_capacity = 1452, enc_error = False\<rparr>
          big_message)
   \<and> bytes_already_sent
        (snd (snd (try_encode \<lparr>enc_written = replicate 9 0 @ [0, 0], enc_capacity = 1452,
                               enc_error = False\<rparr> big_message))) = 1429
   \<and> payload_size
        (snd (snd (try_encode \<lparr>enc_written = replicate 9 0 @ [0, 0], enc_capacity = 1452,
                               enc_error = False\<rparr> big_message))) = 4000"
  by (simp add: try_encode_def encode_def encode_header_and_payload_def encode_header_def
        header_size_def payload_size_def remaining_size_def written_def put_def Let_def
        uint16_bytes_def uint32_bytes_def big_message_def)

lemma backlog_cycle:
  "fst (snd (snd (cycle_loop example_externals [1] [big_message, small_message] []
      \<lparr>enc_written = replicate 9 0 @ [0, 0], enc_capacity = 1452, enc_error = False\<rparr> 0))) =
   [small_message,
    snd (snd (try_encode \<lparr>enc_written = replicate 9 0 @ [0, 0], enc_capacity = 1452,
                          enc_error = False\<rparr> big_message))]
   \<and> fst (cycle_loop example_externals [1] [big_message, small_message] []
      \<lparr>enc_written = replicate 9 0 @ [0, 0], enc_capacity = 1452, enc_error = False\<rparr> 0) = 1
   \<and> snd (snd (snd (cycle_loop example_externals [1] [big_message, small_message] []
      \<lparr>enc_written = replicate 9 0 @ [0, 0], enc_capacity = 1452, enc_error = False\<rparr> 0)))"
proof -
  have na: "\<not> (resend_until_acked big_message
      \<and> is_in example_externals [1] (out_sequence_number big_message))"
    by (simp add: example_externals_def big_message_def)
  show ?thesis
    using big_try_encode na by (simp add: Let_def)
qed

lemma put_count_placeholder:
  "put (uint16_bytes 0) \<lparr>enc_written = replicate 9 0, enc_capacity = 1452, enc_error = False\<rparr>
      = \<lparr>enc_written = replicate 9 0 @ [0, 0], enc_capacity = 1452, enc_error = False\<rparr>"
  by (simp add: put_def remaining_size_def written_def uint16_bytes_def)

lemma backlog_encode_payload:
  "transmit_queue (snd (snd (encode_payload example_externals
       (acks_encoder example_externals backlog) backlog))) =
     [small_message,
      snd (snd (try_encode \<lparr>enc_written = replicate 9 0 @ [0, 0], enc_capacity = 1452,
                            enc_error = False\<rparr> big_message))]
   \<and> fst (encode_payload example_externals (acks_encoder example_externals backlog) backlog) = 1
   \<and> stopped_early example_externals (acks_encoder example_externals backlog) backlog"
  using backlog_cycle
  by (simp add: encode_payload_def stopped_early_def example_acks_encoder put_count_placeholder
        backlog_fields Let_def)

text \<open>
  C6, as the code has it. Each decoded ack set replaces the peer-acked set. A pass of
  \<open>encode_payload\<close> keeps every reliable message whose number is not in the peer-acked
  set (only its fragmentation cursor may move). When the cycle reaches a reliable
  message whose number is in the set, it erases the message without encoding it: the
  loop goes on as if the message were not in the queue. A pass that is not left by
  \<open>break\<close> leaves no acknowledged reliable message in the queue; a pass that stops
  early leaves the messages it did not reach where they are.
\<close>

theorem acked_messages_leave_queue:
  "received_message_ids_by_peer (handle_acks acks s) = acks
   \<and> (\<forall>m \<in> set (transmit_queue s).
        resend_until_acked m
        \<and> \<not> is_in ops (received_message_ids_by_peer s) (out_sequence_number m)
        \<longrightarrow> (\<exists>m' \<in> set (transmit_queue (snd (snd (encode_payload ops e s)))). same_message m m'))
   \<and> (\<not> stopped_early ops e s
      \<longrightarrow> (\<forall>m \<in> set (transmit_queue (snd (snd (encode_payload ops e s)))).
            \<not> acked ops (received_message_ids_by_peer s) m))
   \<and> (acked ops a mi
      \<longrightarrow> cycle_loop ops a (mi # rest) kept e count = cycle_loop ops a rest kept e count)
   \<and> (transmit_queue s = mi # rest \<and> acked ops (received_message_ids_by_peer s) mi
      \<longrightarrow> encode_payload ops e s = encode_payload ops e (s\<lparr>transmit_queue := rest\<rparr>))"
proof -
  have r: "\<forall>m \<in> set (transmit_queue s).
        resend_until_acked m
        \<and> \<not> is_in ops (received_message_ids_by_peer s) (out_sequence_number m)
        \<longrightarrow> (\<exists>m' \<in> set (transmit_queue (snd (snd (encode_payload ops e s)))). same_message m m')"
  proof (intro ballI impI, elim conjE)
    fix m
    assume m: "m \<in> set (transmit_queue s)" "resend_until_acked m"
      "\<not> is_in ops (received_message_ids_by_peer s) (out_sequence_number m)"
    have "\<exists>x \<in> set (transmit_queue s) \<union> set []. same_message m x"
      using m(1) same_message_refl by auto
    from cycle_loop_retains [OF m(2) m(3) this]
    show "\<exists>m' \<in> set (transmit_queue (snd (snd (encode_payload ops e s)))). same_message m m'"
      by (simp add: encode_payload_def Let_def)
  qed
  have c: "\<not> stopped_early ops e s
      \<longrightarrow> (\<forall>m \<in> set (transmit_queue (snd (snd (encode_payload ops e s)))).
            \<not> acked ops (received_message_ids_by_peer s) m)"
    using cycle_loop_complete_pass [of ops "received_message_ids_by_peer s" "transmit_queue s" "[]"
        "put (uint16_bytes 0) e" 0]
    by (simp add: stopped_early_def encode_payload_def Let_def)
  have h: "acked ops a mi
      \<longrightarrow> cycle_loop ops a (mi # rest) kept e count = cycle_loop ops a rest kept e count"
    by (simp add: acked_def)
  have q: "transmit_queue s = mi # rest \<and> acked ops (received_message_ids_by_peer s) mi
      \<longrightarrow> encode_payload ops e s = encode_payload ops e (s\<lparr>transmit_queue := rest\<rparr>)"
    by (simp add: acked_def encode_payload_def Let_def)
  show ?thesis using r c h q by (simp add: handle_acks_def)
qed

theorem acked_message_not_reached_counterexample:
  "transmit_queue backlog = [big_message, small_message]
   \<and> acked example_externals (received_message_ids_by_peer backlog) small_message
   \<and> small_message \<in> set (transmit_queue (snd (snd (encode_payload example_externals
                              (acks_encoder example_externals backlog) backlog))))
   \<and> small_message \<in> set (transmit_queue (start_sending example_externals backlog))"
proof -
  have a: "acked example_externals (received_message_ids_by_peer backlog) small_message"
    by (simp add: acked_def backlog_fields example_externals_def small_message_def)
  have q: "transmit_queue (start_sending example_externals backlog) =
      transmit_queue (snd (snd (encode_payload example_externals
                              (acks_encoder example_externals backlog) backlog)))"
    using backlog_fields backlog_encode_payload
    by (simp add: start_sending_def acks_encoder_def [symmetric] Let_def example_acks_encoder
          emit_def encode_payload_frame)
  show ?thesis
    using a backlog_fields backlog_encode_payload q by simp
qed

lemma settled_fields:
  "transmit_queue settled = [small_message] \<and> received_message_ids_by_peer settled = [1]"
  by (simp add: settled_def handle_acks_def add_message_def SocketImpl_new_def small_message_def)

theorem acked_messages_leave_queue_witness:
  "big_message \<in> set (transmit_queue backlog) \<and> resend_until_acked big_message
   \<and> \<not> is_in example_externals (received_message_ids_by_peer backlog)
          (out_sequence_number big_message)
   \<and> (\<exists>m' \<in> set (transmit_queue (snd (snd (encode_payload example_externals
                        (acks_encoder example_externals backlog) backlog)))).
         same_message big_message m')
   \<and> transmit_queue settled = [small_message]
   \<and> acked example_externals (received_message_ids_by_peer settled) small_message
   \<and> \<not> stopped_early example_externals (acks_encoder example_externals settled) settled
   \<and> transmit_queue (snd (snd (encode_payload example_externals
                        (acks_encoder example_externals settled) settled))) = []
   \<and> encode_payload example_externals (acks_encoder example_externals settled) settled =
       encode_payload example_externals (acks_encoder example_externals settled)
         (settled\<lparr>transmit_queue := []\<rparr>)
   \<and> cycle_loop example_externals [1] [small_message] [] (encoder_over packet_size) 0 =
       (0, encoder_over packet_size, [], False)"
proof -
  note t1 = acked_messages_leave_queue [where s = backlog and ops = example_externals
      and e = "acks_encoder example_externals backlog" and acks = "[]" and a = "[1]"
      and mi = small_message and rest = "[]" and kept = "[]" and count = 0]
  note t2 = acked_messages_leave_queue [where s = settled and ops = example_externals
      and e = "acks_encoder example_externals settled" and acks = "[]"
      and a = "[1]" and mi = small_message and rest = "[]" and kept = "[]" and count = 0]
  note t3 = acked_messages_leave_queue [where s = settled and ops = example_externals
      and e = "encoder_over packet_size" and acks = "[]"
      and a = "[1]" and mi = small_message and rest = "[]" and kept = "[]" and count = 0]
  have b: "big_message \<in> set (transmit_queue backlog)" "resend_until_acked big_message"
    "\<not> is_in example_externals (received_message_ids_by_peer backlog)
          (out_sequence_number big_message)"
    by (simp_all add: backlog_fields big_message_def example_externals_def)
  have a: "acked example_externals (received_message_ids_by_peer settled) small_message"
    "acked example_externals [1] small_message"
    by (simp_all add: acked_def settled_fields example_externals_def small_message_def)
  have ns: "\<not> stopped_early example_externals (acks_encoder example_externals settled) settled"
    using a(2) by (simp add: stopped_early_def settled_fields acked_def)
  from t1 b have r: "\<exists>m' \<in> set (transmit_queue (snd (snd (encode_payload example_externals
                        (acks_encoder example_externals backlog) backlog)))).
         same_message big_message m'" by blast
  from t2 settled_fields a(1) have e: "encode_payload example_externals
         (acks_encoder example_externals settled) settled =
       encode_payload example_externals (acks_encoder example_externals settled)
         (settled\<lparr>transmit_queue := []\<rparr>)" by blast
  have q: "transmit_queue (snd (snd (encode_payload example_externals
                        (acks_encoder example_externals settled) settled))) = []"
    unfolding e by (simp add: encode_payload_def Let_def)
  from t3 a(2) have c: "cycle_loop example_externals [1] [small_message] []
        (encoder_over packet_size) 0 =
      cycle_loop example_externals [1] [] [] (encoder_over packet_size) 0" by blast
  show ?thesis
    using b a(1) ns r settled_fields e q c by (intro conjI) simp_all
qed

end
